theory Spec2Isabelle
  imports Main
begin

section \<open>The request handler of \<^verbatim>\<open>src/app/api/stock-data/route.ts\<close>\<close>

subsection \<open>Data model\<close>

text \<open>
  A value thrown by the Provider, by the CSV library or by the handler itself: either an
  \<^verbatim>\<open>Error\<close> instance, of which the handler reads the \<^verbatim>\<open>message\<close>, or a value that is not
  an \<^verbatim>\<open>Error\<close> instance.
\<close>

datatype thrown = Error string | Thrown_value

text \<open>
  \<^verbatim>\<open>interface StockDataRequest\<close>, as \<^verbatim>\<open>req.json()\<close> delivers it: the handler does not check
  the body against the interface, so every field may be absent (\<open>None\<close>), and \<^verbatim>\<open>interval\<close> is
  whatever string the body holds.
\<close>

record StockDataRequest =
  symbols :: "string list option"
  startDate :: "string option"
  endDate :: "string option"
  interval :: "string option"

text \<open>
  \<^verbatim>\<open>interface ProgressUpdate\<close>. The constant field \<^verbatim>\<open>type: 'progress'\<close> is the constructor
  \<open>Progress\<close> of the events below; \<^verbatim>\<open>total\<close> and \<^verbatim>\<open>error\<close> carry a suffix since HOL has
  constants of these names.
\<close>

record ProgressUpdate =
  current :: nat
  total_p :: nat
  error_p :: "string option"

text \<open>
  \<^verbatim>\<open>interface HistoricalDataItem\<close>. Dates (\<open>'d\<close>) and numbers (\<open>'n\<close>) are handed through by the
  handler untouched, so both stay type parameters. (\<^verbatim>\<open>open\<close> is a keyword of Isabelle.)
\<close>

record ('d, 'n) HistoricalDataItem =
  date :: 'd
  open_p :: 'n
  high :: 'n
  low :: 'n
  close :: 'n
  volume :: 'n
  adjClose :: "'n option"

text \<open>The object \<^verbatim>\<open>{ ...item, symbol }\<close>: the item's fields and the symbol it was fetched for.\<close>

record ('d, 'n) ResultWithSymbol = "('d, 'n) HistoricalDataItem" +
  symbol :: string

text \<open>\<^verbatim>\<open>queryOptions\<close>: the two dates built by \<^verbatim>\<open>new Date\<close> and the interval as received.\<close>

record 'd queryOptions =
  period1 :: 'd
  period2 :: 'd
  interval_q :: "string option"

subsection \<open>Events, effects and the outside world\<close>

text \<open>
  The three blocks the handler writes to the stream. \<open>Progress u\<close> stands for the chunk
  \<^verbatim>\<open>event: progress\ndata: ${JSON.stringify(u)}\n\n\<close>, \<open>Complete csv\<close> for
  \<^verbatim>\<open>event: complete\ndata: ${csv}\n\n\<close> and \<open>Error_event m\<close> for
  \<^verbatim>\<open>event: error\ndata: ${JSON.stringify({ error: m })}\n\n\<close>.
\<close>

datatype 'csv event = Progress ProgressUpdate | Complete 'csv | Error_event string

text \<open>
  What the handler does to the outside, in the order it does it: the fixed delay, the two
  Provider calls, and the two operations on the stream writer. Console logging is left out.
\<close>

datatype ('d, 'csv) effect =
    Delay nat
  | Quote_call string
  | Historical_call string "'d queryOptions"
  | Write "'csv event"
  | Close

text \<open>
  The handler's collaborators, none of which is code of the repository:
  \<^item> \<open>new_Date\<close> is the constructor \<^verbatim>\<open>new Date(...)\<close>, which accepts any argument;
  \<^item> \<open>quote\<close> is \<^verbatim>\<open>yahooFinance.quote\<close>: it throws, or returns a value of which the handler
    only tests the truthiness (\<open>True\<close> for a quote, \<open>False\<close> for \<^verbatim>\<open>null\<close> or \<^verbatim>\<open>undefined\<close>);
  \<^item> \<open>historical\<close> is \<^verbatim>\<open>yahooFinance.historical\<close>: it throws, or returns the rows;
  \<^item> \<open>parse\<close> is \<^verbatim>\<open>new Parser({ fields }).parse\<close> of json2csv: it throws, or returns the CSV.

  The Provider answers over the network, so two calls for the same symbol may differ: both
  calls take, as first argument, the number of symbols processed before the call.
  In \<open>stream_task\<close> below, writes to the stream and its closing are taken to succeed;
  \<open>stream_task_on\<close>, further down, is the task on a stream that may reject them.
\<close>

record ('d, 'n, 'csv) env =
  new_Date :: "string option \<Rightarrow> 'd"
  quote :: "nat \<Rightarrow> string \<Rightarrow> thrown + bool"
  historical :: "nat \<Rightarrow> string \<Rightarrow> 'd queryOptions \<Rightarrow> thrown + ('d, 'n) HistoricalDataItem list"
  parse :: "string list \<Rightarrow> ('d, 'n) ResultWithSymbol list \<Rightarrow> thrown + 'csv"

text \<open>The answer of \<^verbatim>\<open>POST\<close>: \<^verbatim>\<open>NextResponse.json(body, { status })\<close> or the streaming \<^verbatim>\<open>Response\<close>.\<close>

datatype response =
    NextResponse_json string nat
  | Response_stream nat "(string \<times> string) list"

subsection \<open>The per-symbol loop\<close>

text \<open>The local variables of the asynchronous task, and the effects performed so far.\<close>

record ('d, 'n, 'csv) loop_state =
  allResults :: "('d, 'n) ResultWithSymbol list"
  processedCount :: nat
  failedSymbols :: "string list"
  effects :: "('d, 'csv) effect list"

text \<open>\<^verbatim>\<open>Array.prototype.join\<close> on an array of strings.\<close>

fun join :: "string \<Rightarrow> string list \<Rightarrow> string" where
  "join sep [] = []"
| "join sep [x] = x"
| "join sep (x # y # ys) = x @ sep @ join sep (y # ys)"

text \<open>\<^verbatim>\<open>(item) => ({ ...item, symbol })\<close>\<close>

definition with_symbol :: "string \<Rightarrow> ('d, 'n) HistoricalDataItem \<Rightarrow> ('d, 'n) ResultWithSymbol" where
  "with_symbol smb item =
     \<lparr>date = date item, open_p = open_p item, high = high item, low = low item,
      close = close item, volume = volume item, adjClose = adjClose item, symbol = smb\<rparr>"

text \<open>
  The body of the inner \<^verbatim>\<open>try\<close> (lines 61 to 74) for the symbol processed as number \<open>k\<close>
  (counting from 0): the calls it makes, and either the value that reaches the inner
  \<^verbatim>\<open>catch\<close> or the rows \<^verbatim>\<open>resultWithSymbol\<close> that are pushed on \<^verbatim>\<open>allResults\<close>.
\<close>

definition try_symbol ::
  "('d, 'n, 'csv) env \<Rightarrow> 'd queryOptions \<Rightarrow> nat \<Rightarrow> string \<Rightarrow>
     ('d, 'csv) effect list \<times> (thrown + ('d, 'n) ResultWithSymbol list)" where
  "try_symbol e opts k smb =
     (case quote e k smb of
        Inl err \<Rightarrow> ([Delay 1000, Quote_call smb], Inl err)
      | Inr q \<Rightarrow>
          if \<not> q then ([Delay 1000, Quote_call smb], Inl (Error ''Invalid symbol''))
          else (case historical e k smb opts of
                  Inl err \<Rightarrow> ([Delay 1000, Quote_call smb, Historical_call smb opts], Inl err)
                | Inr result \<Rightarrow>
                    ([Delay 1000, Quote_call smb, Historical_call smb opts],
                     Inr (map (with_symbol smb) result))))"

text \<open>The \<^verbatim>\<open>error\<close> field of a progress update (lines 85 to 87).\<close>

definition progress_error :: "string list \<Rightarrow> string option" where
  "progress_error failed =
     (if length failed > 0 then Some (''Failed to fetch: '' @ join '', '' failed) else None)"

text \<open>One iteration of \<^verbatim>\<open>for (const symbol of symbols)\<close> (lines 60 to 92); \<open>n\<close> is \<^verbatim>\<open>symbols.length\<close>.\<close>

definition loop_body ::
  "('d, 'n, 'csv) env \<Rightarrow> 'd queryOptions \<Rightarrow> nat \<Rightarrow> ('d, 'n, 'csv) loop_state \<Rightarrow> string \<Rightarrow>
     ('d, 'n, 'csv) loop_state" where
  "loop_body e opts n st smb =
     (let (calls, outcome) = try_symbol e opts (processedCount st) smb;
          st1 = (case outcome of
                   Inr resultWithSymbol \<Rightarrow> st\<lparr>allResults := allResults st @ resultWithSymbol\<rparr>
                 | Inl err \<Rightarrow> st\<lparr>failedSymbols := failedSymbols st @ [smb]\<rparr>);
          st2 = st1\<lparr>processedCount := processedCount st1 + 1\<rparr>;
          progressUpdate = \<lparr>current = processedCount st2, total_p = n,
                            error_p = progress_error (failedSymbols st2)\<rparr>
      in st2\<lparr>effects := effects st2 @ calls @ [Write (Progress progressUpdate)]\<rparr>)"

definition initial_state :: "('d, 'n, 'csv) loop_state" where
  "initial_state = \<lparr>allResults = [], processedCount = 0, failedSymbols = [], effects = []\<rparr>"

definition run_loop ::
  "('d, 'n, 'csv) env \<Rightarrow> 'd queryOptions \<Rightarrow> string list \<Rightarrow> ('d, 'n, 'csv) loop_state" where
  "run_loop e opts syms = foldl (loop_body e opts (length syms)) initial_state syms"

subsection \<open>The asynchronous task and \<^verbatim>\<open>POST\<close>\<close>

text \<open>The array \<^verbatim>\<open>fields\<close> of line 99 (every record declares a constant \<open>fields\<close>, hence the suffix).\<close>

definition fields_p :: "string list" where
  "fields_p = [''symbol'', ''date'', ''open'', ''high'', ''low'', ''close'', ''volume'', ''adjClose'']"

definition query_options :: "('d, 'n, 'csv) env \<Rightarrow> StockDataRequest \<Rightarrow> 'd queryOptions" where
  "query_options e r =
     \<lparr>period1 = new_Date e (startDate r), period2 = new_Date e (endDate r),
      interval_q = interval r\<rparr>"

text \<open>The outer \<^verbatim>\<open>catch\<close> of the task (lines 105 to 112), entered after the effects \<open>effs\<close>.\<close>

definition catch_error :: "('d, 'csv) effect list \<Rightarrow> thrown \<Rightarrow> ('d, 'csv) effect list" where
  "catch_error effs err =
     (let errorMessage = (case err of Error m \<Rightarrow> m | Thrown_value \<Rightarrow> ''An error occurred'')
      in effs @ [Write (Error_event errorMessage), Close])"

text \<open>
  The task started at line 47, as the list of its effects. Iterating over an absent
  \<^verbatim>\<open>symbols\<close> would throw a \<^verbatim>\<open>TypeError\<close> into the outer \<^verbatim>\<open>catch\<close>; \<^verbatim>\<open>POST\<close> never starts the
  task on such a request.
\<close>

definition stream_task :: "('d, 'n, 'csv) env \<Rightarrow> StockDataRequest \<Rightarrow> ('d, 'csv) effect list" where
  "stream_task e r =
     (case symbols r of
        None \<Rightarrow> catch_error [] (Error ''symbols is not iterable'')
      | Some syms \<Rightarrow>
          (let st = run_loop e (query_options e r) syms in
           if length (allResults st) = 0
           then catch_error (effects st) (Error ''No valid data retrieved for any symbols'')
           else (case parse e fields_p (allResults st) of
                   Inl err \<Rightarrow> catch_error (effects st) err
                 | Inr csv \<Rightarrow> effects st @ [Write (Complete csv), Close])))"

text \<open>
  The test of line 36, \<^verbatim>\<open>!symbols?.length || !startDate || !endDate\<close>: an absent array and
  an array of length 0 are falsy, and so are an absent string and the empty string.
\<close>

definition falsy_length :: "string list option \<Rightarrow> bool" where
  "falsy_length a = (case a of None \<Rightarrow> True | Some xs \<Rightarrow> length xs = 0)"

definition falsy_string :: "string option \<Rightarrow> bool" where
  "falsy_string s = (case s of None \<Rightarrow> True | Some cs \<Rightarrow> cs = [])"

definition missing_required :: "StockDataRequest \<Rightarrow> bool" where
  "missing_required r \<longleftrightarrow>
     falsy_length (symbols r) \<or> falsy_string (startDate r) \<or> falsy_string (endDate r)"

definition stream_headers :: "(string \<times> string) list" where
  "stream_headers =
     [(''Content-Type'', ''text/event-stream''), (''Cache-Control'', ''no-cache''),
      (''Connection'', ''keep-alive'')]"

text \<open>
  \<^verbatim>\<open>POST\<close>, given what \<^verbatim>\<open>await req.json()\<close> yields (\<open>Inl\<close> when it throws): the response and
  the effects of the task it started, if it started one.
\<close>

definition POST ::
  "('d, 'n, 'csv) env \<Rightarrow> thrown + StockDataRequest \<Rightarrow> response \<times> ('d, 'csv) effect list" where
  "POST e body =
     (case body of
        Inl err \<Rightarrow> (NextResponse_json ''Failed to fetch stock data'' 500, [])
      | Inr r \<Rightarrow>
          if missing_required r
          then (NextResponse_json ''Missing required fields'' 400, [])
          else (Response_stream 200 stream_headers, stream_task e r))"

subsection \<open>The CSV, as a table\<close>

text \<open>
  Modelled from the spec: the CSV library (\<^verbatim>\<open>Parser\<close> of json2csv) is not part of the
  repository. The spec fixes of its output the header, which is the list of columns in the
  order the handler gives, and one data row for each accumulated row; a cell holds the
  field of the row that the column names, and is blank where the row has no such field.
  The text of a cell (quoting, the format of dates and numbers) is not modelled.
\<close>

datatype ('d, 'n) cell = Text string | Date_cell 'd | Number 'n | Blank

record ('d, 'n) csv =
  csv_header :: "string list"
  csv_rows :: "('d, 'n) cell list list"

definition field_value :: "string \<Rightarrow> ('d, 'n) ResultWithSymbol \<Rightarrow> ('d, 'n) cell" where
  "field_value f row =
     (if f = ''symbol'' then Text (symbol row)
      else if f = ''date'' then Date_cell (date row)
      else if f = ''open'' then Number (open_p row)
      else if f = ''high'' then Number (high row)
      else if f = ''low'' then Number (low row)
      else if f = ''close'' then Number (close row)
      else if f = ''volume'' then Number (volume row)
      else if f = ''adjClose'' then (case adjClose row of None \<Rightarrow> Blank | Some v \<Rightarrow> Number v)
      else Blank)"

definition json2csv_parse ::
  "string list \<Rightarrow> ('d, 'n) ResultWithSymbol list \<Rightarrow> thrown + ('d, 'n) csv" where
  "json2csv_parse fs rows =
     Inr \<lparr>csv_header = fs, csv_rows = map (\<lambda>row. map (\<lambda>f. field_value f row) fs) rows\<rparr>"

text \<open>Reading a table back: the position of a column in the header, and the cells below it.\<close>

fun index_of :: "'a \<Rightarrow> 'a list \<Rightarrow> nat option" where
  "index_of x [] = None"
| "index_of x (y # ys) = (if x = y then Some 0 else map_option Suc (index_of x ys))"

definition cell_at :: "nat \<Rightarrow> ('d, 'n) cell list \<Rightarrow> ('d, 'n) cell" where
  "cell_at i cells = (if i < length cells then cells ! i else Blank)"

definition column :: "string \<Rightarrow> ('d, 'n) csv \<Rightarrow> ('d, 'n) cell list option" where
  "column name t = map_option (\<lambda>i. map (cell_at i) (csv_rows t)) (index_of name (csv_header t))"

definition symbol_date_pairs :: "('d, 'n) csv \<Rightarrow> (('d, 'n) cell \<times> ('d, 'n) cell) list option" where
  "symbol_date_pairs t =
     (case (column ''symbol'' t, column ''date'' t) of
        (Some ss, Some ds) \<Rightarrow> Some (zip ss ds)
      | _ \<Rightarrow> None)"

subsection \<open>Reading the effects\<close>

fun progress_of :: "('d, 'csv) effect \<Rightarrow> ProgressUpdate list" where
  "progress_of (Write (Progress u)) = [u]"
| "progress_of _ = []"

fun complete_of :: "('d, 'csv) effect \<Rightarrow> 'csv list" where
  "complete_of (Write (Complete c)) = [c]"
| "complete_of _ = []"

fun error_of :: "('d, 'csv) effect \<Rightarrow> string list" where
  "error_of (Write (Error_event m)) = [m]"
| "error_of _ = []"

fun is_close :: "('d, 'csv) effect \<Rightarrow> bool" where
  "is_close Close = True"
| "is_close _ = False"

text \<open>The progress updates, the CSV payloads and the error messages written, in order.\<close>

definition progress_updates :: "('d, 'csv) effect list \<Rightarrow> ProgressUpdate list" where
  "progress_updates effs = concat (map progress_of effs)"

definition complete_payloads :: "('d, 'csv) effect list \<Rightarrow> 'csv list" where
  "complete_payloads effs = concat (map complete_of effs)"

definition error_messages :: "('d, 'csv) effect list \<Rightarrow> string list" where
  "error_messages effs = concat (map error_of effs)"

definition close_count :: "('d, 'csv) effect list \<Rightarrow> nat" where
  "close_count effs = length (filter is_close effs)"

subsection \<open>What the Provider did in a run\<close>

text \<open>
  The symbol processed as number \<open>k\<close> succeeds when its quote is returned and truthy and its
  historical call returns; it fails otherwise: a call throws, or the quote is empty.
\<close>

definition succeeds :: "('d, 'n, 'csv) env \<Rightarrow> 'd queryOptions \<Rightarrow> string list \<Rightarrow> nat \<Rightarrow> bool" where
  "succeeds e opts syms k \<longleftrightarrow>
     quote e k (syms ! k) = Inr True \<and> \<not> isl (historical e k (syms ! k) opts)"

definition fails :: "('d, 'n, 'csv) env \<Rightarrow> 'd queryOptions \<Rightarrow> string list \<Rightarrow> nat \<Rightarrow> bool" where
  "fails e opts syms k \<longleftrightarrow>
     isl (quote e k (syms ! k)) \<or> quote e k (syms ! k) = Inr False \<or>
     isl (historical e k (syms ! k) opts)"

text \<open>The rows the Provider returned for the symbol processed as number \<open>k\<close>, none if it failed.\<close>

definition returned_rows ::
  "('d, 'n, 'csv) env \<Rightarrow> 'd queryOptions \<Rightarrow> string list \<Rightarrow> nat \<Rightarrow> ('d, 'n) HistoricalDataItem list" where
  "returned_rows e opts syms k =
     (if quote e k (syms ! k) = Inr True
      then (case historical e k (syms ! k) opts of Inl err \<Rightarrow> [] | Inr result \<Rightarrow> result)
      else [])"

text \<open>The symbols that failed among the first \<open>k\<close>, in processing order, with repetitions.\<close>

definition failed_upto ::
  "('d, 'n, 'csv) env \<Rightarrow> 'd queryOptions \<Rightarrow> string list \<Rightarrow> nat \<Rightarrow> string list" where
  "failed_upto e opts syms k = map (\<lambda>j. syms ! j) (filter (fails e opts syms) [0..<k])"

text \<open>The rows returned for the first \<open>k\<close> symbols, each tagged with the symbol it was fetched for.\<close>

definition tagged_upto ::
  "('d, 'n, 'csv) env \<Rightarrow> 'd queryOptions \<Rightarrow> string list \<Rightarrow> nat \<Rightarrow> ('d, 'n) ResultWithSymbol list" where
  "tagged_upto e opts syms k =
     concat (map (\<lambda>j. map (with_symbol (syms ! j)) (returned_rows e opts syms j)) [0..<k])"

text \<open>
  The progress update that ends the turn of the symbol processed as number \<open>k\<close>, and the
  effects of that turn: the calls of the inner \<^verbatim>\<open>try\<close>, then the write of the update.
\<close>

definition progress_at ::
  "('d, 'n, 'csv) env \<Rightarrow> 'd queryOptions \<Rightarrow> string list \<Rightarrow> nat \<Rightarrow> ProgressUpdate" where
  "progress_at e opts syms k =
     \<lparr>current = k + 1, total_p = length syms,
      error_p = progress_error (failed_upto e opts syms (k + 1))\<rparr>"

definition turn ::
  "('d, 'n, 'csv) env \<Rightarrow> 'd queryOptions \<Rightarrow> string list \<Rightarrow> nat \<Rightarrow> ('d, 'csv) effect list" where
  "turn e opts syms k =
     fst (try_symbol e opts k (syms ! k)) @ [Write (Progress (progress_at e opts syms k))]"

text \<open>What the task does after the loop: the error event or the CSV, and the closing.\<close>

definition terminal ::
  "('d, 'n, 'csv) env \<Rightarrow> 'd queryOptions \<Rightarrow> string list \<Rightarrow> ('d, 'csv) effect list" where
  "terminal e opts syms =
     (if tagged_upto e opts syms (length syms) = []
      then [Write (Error_event ''No valid data retrieved for any symbols''), Close]
      else (case parse e fields_p (tagged_upto e opts syms (length syms)) of
              Inl (Error m) \<Rightarrow> [Write (Error_event m), Close]
            | Inl Thrown_value \<Rightarrow> [Write (Error_event ''An error occurred''), Close]
            | Inr c \<Rightarrow> [Write (Complete c), Close]))"

subsection \<open>A small world to run the handler in\<close>

definition demo_row :: "string \<Rightarrow> int \<Rightarrow> (string, int) HistoricalDataItem" where
  "demo_row d p =
     \<lparr>date = d, open_p = p, high = p + 2, low = p - 1, close = p + 1, volume = 1000,
      adjClose = Some (p + 1)\<rparr>"

text \<open>
  A Provider that knows \<^verbatim>\<open>AAPL\<close> (two rows), \<^verbatim>\<open>MSFT\<close> (one row) and \<^verbatim>\<open>IDLE\<close> (no row),
  answers \<^verbatim>\<open>GONE\<close> with an empty quote, and throws on every other symbol.
\<close>

definition demo_env :: "(string, int, (string, int) csv) env" where
  "demo_env =
     \<lparr>new_Date = (\<lambda>s. case s of None \<Rightarrow> ''Invalid Date'' | Some d \<Rightarrow> d),
      quote = (\<lambda>k s. if s \<in> {''AAPL'', ''MSFT'', ''IDLE''} then Inr True
                      else if s = ''GONE'' then Inr False
                      else Inl (Error ''Quote not found'')),
      historical = (\<lambda>k s opts.
                      if s = ''AAPL'' then Inr [demo_row ''2023-01-03'' 130, demo_row ''2023-01-04'' 126]
                      else if s = ''MSFT'' then Inr [demo_row ''2023-01-03'' 243]
                      else if s = ''IDLE'' then Inr []
                      else Inl (Error ''No data found'')),
      parse = json2csv_parse\<rparr>"

definition demo_request :: "string list \<Rightarrow> StockDataRequest" where
  "demo_request syms =
     \<lparr>symbols = Some syms, startDate = Some ''2023-01-01'', endDate = Some ''2023-01-05'',
      interval = Some ''1d''\<rparr>"

section \<open>The form controller of \<^verbatim>\<open>src/app/page.tsx\<close>\<close>

subsection \<open>Strings\<close>

text \<open>
  \<^verbatim>\<open>s.split('\n')\<close>, for a separator of one character: the pieces between the separators,
  of which there is always at least one.
\<close>

fun split_on :: "char \<Rightarrow> string \<Rightarrow> string list" where
  "split_on sep [] = [[]]"
| "split_on sep (c # cs) =
     (if c = sep then [] # split_on sep cs
      else (case split_on sep cs of
              [] \<Rightarrow> [[c]]
            | piece # pieces \<Rightarrow> (c # piece) # pieces))"

fun starts_with :: "string \<Rightarrow> string \<Rightarrow> bool" where
  "starts_with [] s = True"
| "starts_with (p # ps) [] = False"
| "starts_with (p # ps) (c # cs) = (p = c \<and> starts_with ps cs)"

text \<open>\<^verbatim>\<open>s.replace(pattern, '')\<close> for a string pattern: the first occurrence is removed.\<close>

fun remove_first :: "string \<Rightarrow> string \<Rightarrow> string" where
  "remove_first pattern [] = []"
| "remove_first pattern (c # cs) =
     (if starts_with pattern (c # cs) then drop (length pattern) (c # cs)
      else c # remove_first pattern cs)"

subsection \<open>\<^verbatim>\<open>JSON.parse\<close>\<close>

text \<open>
  A JSON value. A number is kept as the text that denotes it, and an object as its members
  in the order of the text.
\<close>

datatype json =
    JNull
  | JBool bool
  | JNumber string
  | JString string
  | JArray "json list"
  | JObject "(string \<times> json) list"

text \<open>
  The outcome of reading a piece of JSON text: a result and the text left after it, a
  syntax error, or \<open>Unmodelled\<close> where this model of the built-in parser gives no answer
  (an escape \<^verbatim>\<open>\u\<close>, whose character may not fit a \<^typ>\<open>char\<close>, or nesting beyond the fuel).
\<close>

datatype 'a parsed = Parsed 'a string | Syntax | Unmodelled

definition then_parsed :: "'a parsed \<Rightarrow> ('a \<Rightarrow> string \<Rightarrow> 'b parsed) \<Rightarrow> 'b parsed" where
  "then_parsed p f = (case p of Parsed v rest \<Rightarrow> f v rest | Syntax \<Rightarrow> Syntax | Unmodelled \<Rightarrow> Unmodelled)"

definition is_ws :: "char \<Rightarrow> bool" where
  "is_ws c \<longleftrightarrow> c = CHR '' '' \<or> c = CHR 0x09 \<or> c = CHR 0x0A \<or> c = CHR 0x0D"

definition is_digit :: "char \<Rightarrow> bool" where
  "is_digit c \<longleftrightarrow> (0x30::nat) \<le> of_char c \<and> (of_char c :: nat) \<le> 0x39"

definition skip_ws :: "string \<Rightarrow> string" where
  "skip_ws s = dropWhile is_ws s"

text \<open>The characters a backslash may precede, \<^verbatim>\<open>u\<close> apart, and what each stands for.\<close>

definition unescape :: "char \<Rightarrow> char option" where
  "unescape c =
     (if c = CHR 0x22 then Some (CHR 0x22)
      else if c = CHR 0x5C then Some (CHR 0x5C)
      else if c = CHR ''/'' then Some (CHR ''/'')
      else if c = CHR ''b'' then Some (CHR 0x08)
      else if c = CHR ''f'' then Some (CHR 0x0C)
      else if c = CHR ''n'' then Some (CHR 0x0A)
      else if c = CHR ''r'' then Some (CHR 0x0D)
      else if c = CHR ''t'' then Some (CHR 0x09)
      else None)"

text \<open>A string, read from behind its opening quote up to its closing quote.\<close>

fun parse_string :: "string \<Rightarrow> string parsed" where
  "parse_string [] = Syntax"
| "parse_string [c] = (if c = CHR 0x22 then Parsed [] [] else Syntax)"
| "parse_string (c # d # cs) =
     (if c = CHR 0x22 then Parsed [] (d # cs)
      else if c = CHR 0x5C then
        (case unescape d of
           Some u \<Rightarrow> then_parsed (parse_string cs) (\<lambda>s rest. Parsed (u # s) rest)
         | None \<Rightarrow> if d = CHR ''u'' then Unmodelled else Syntax)
      else if (of_char c :: nat) < 0x20 then Syntax
      else then_parsed (parse_string (d # cs)) (\<lambda>s rest. Parsed (c # s) rest))"

text \<open>
  A number: an optional minus sign, an integer part without a leading zero, an optional
  fraction and an optional exponent. The result is the text of the number.
\<close>

definition parse_digits :: "string \<Rightarrow> string parsed" where
  "parse_digits s =
     (if takeWhile is_digit s = [] then Syntax
      else Parsed (takeWhile is_digit s) (dropWhile is_digit s))"

definition parse_int_part :: "string \<Rightarrow> string parsed" where
  "parse_int_part s =
     (case s of
        [] \<Rightarrow> Syntax
      | c # cs \<Rightarrow> if c = CHR ''0'' then Parsed [c] cs else parse_digits s)"

definition parse_fraction :: "string \<Rightarrow> string parsed" where
  "parse_fraction s =
     (case s of
        [] \<Rightarrow> Parsed [] []
      | c # cs \<Rightarrow>
          if c = CHR ''.'' then then_parsed (parse_digits cs) (\<lambda>ds rest. Parsed (c # ds) rest)
          else Parsed [] s)"

definition parse_exponent :: "string \<Rightarrow> string parsed" where
  "parse_exponent s =
     (case s of
        [] \<Rightarrow> Parsed [] []
      | c # cs \<Rightarrow>
          if c = CHR ''e'' \<or> c = CHR ''E'' then
            (case cs of
               [] \<Rightarrow> Syntax
             | d # ds \<Rightarrow>
                 if d = CHR ''+'' \<or> d = CHR ''-''
                 then then_parsed (parse_digits ds) (\<lambda>es rest. Parsed (c # d # es) rest)
                 else then_parsed (parse_digits cs) (\<lambda>es rest. Parsed (c # es) rest))
          else Parsed [] s)"

definition parse_number :: "string \<Rightarrow> string parsed" where
  "parse_number s =
     (let (sign, s1) = (case s of
                          [] \<Rightarrow> ([], s)
                        | c # cs \<Rightarrow> if c = CHR ''-'' then ([c], cs) else ([], s))
      in then_parsed (parse_int_part s1) (\<lambda>i s2.
         then_parsed (parse_fraction s2) (\<lambda>f s3.
         then_parsed (parse_exponent s3) (\<lambda>x s4. Parsed (sign @ i @ f @ x) s4))))"

text \<open>
  A value, the elements of an array after its opening bracket, and the members of an object
  after its opening brace. The first argument bounds the depth of the descent.
\<close>

fun parse_value :: "nat \<Rightarrow> string \<Rightarrow> json parsed"
  and parse_elements :: "nat \<Rightarrow> string \<Rightarrow> json list parsed"
  and parse_members :: "nat \<Rightarrow> string \<Rightarrow> (string \<times> json) list parsed" where
  "parse_value 0 s = Unmodelled"
| "parse_value (Suc n) s =
     (case skip_ws s of
        [] \<Rightarrow> Syntax
      | c # cs \<Rightarrow>
          if c = CHR 0x22 then then_parsed (parse_string cs) (\<lambda>str rest. Parsed (JString str) rest)
          else if c = CHR ''['' then
            (case skip_ws cs of
               [] \<Rightarrow> Syntax
             | d # ds \<Rightarrow>
                 if d = CHR '']'' then Parsed (JArray []) ds
                 else then_parsed (parse_elements n cs) (\<lambda>vs rest. Parsed (JArray vs) rest))
          else if c = CHR ''{'' then
            (case skip_ws cs of
               [] \<Rightarrow> Syntax
             | d # ds \<Rightarrow>
                 if d = CHR ''}'' then Parsed (JObject []) ds
                 else then_parsed (parse_members n cs) (\<lambda>ms rest. Parsed (JObject ms) rest))
          else if starts_with ''true'' (c # cs) then Parsed (JBool True) (drop 4 (c # cs))
          else if starts_with ''false'' (c # cs) then Parsed (JBool False) (drop 5 (c # cs))
          else if starts_with ''null'' (c # cs) then Parsed JNull (drop 4 (c # cs))
          else then_parsed (parse_number (c # cs)) (\<lambda>num rest. Parsed (JNumber num) rest))"
| "parse_elements 0 s = Unmodelled"
| "parse_elements (Suc n) s =
     then_parsed (parse_value n s) (\<lambda>v rest.
       (case skip_ws rest of
          [] \<Rightarrow> Syntax
        | c # cs \<Rightarrow>
            if c = CHR '','' then then_parsed (parse_elements n cs) (\<lambda>vs rest'. Parsed (v # vs) rest')
            else if c = CHR '']'' then Parsed [v] cs
            else Syntax))"
| "parse_members 0 s = Unmodelled"
| "parse_members (Suc n) s =
     (case skip_ws s of
        [] \<Rightarrow> Syntax
      | q # qs \<Rightarrow>
          if q \<noteq> CHR 0x22 then Syntax
          else then_parsed (parse_string qs) (\<lambda>key rest.
            (case skip_ws rest of
               [] \<Rightarrow> Syntax
             | c # cs \<Rightarrow>
                 if c \<noteq> CHR '':'' then Syntax
                 else then_parsed (parse_value n cs) (\<lambda>v rest'.
                   (case skip_ws rest' of
                      [] \<Rightarrow> Syntax
                    | d # ds \<Rightarrow>
                        if d = CHR '','' then
                          then_parsed (parse_members n ds) (\<lambda>ms rest''. Parsed ((key, v) # ms) rest'')
                        else if d = CHR ''}'' then Parsed [(key, v)] ds
                        else Syntax)))))"

text \<open>
  \<^verbatim>\<open>JSON.parse(text)\<close>: one value, with nothing but white space around it. Every level of
  nesting takes a character of the text, so twice the length of the text bounds the descent.
\<close>

datatype json_outcome = Value json | SyntaxError | Not_modelled

definition JSON_parse :: "string \<Rightarrow> json_outcome" where
  "JSON_parse s =
     (case parse_value (2 * length s + 2) s of
        Parsed v rest \<Rightarrow> if skip_ws rest = [] then Value v else SyntaxError
      | Syntax \<Rightarrow> SyntaxError
      | Unmodelled \<Rightarrow> Not_modelled)"

subsection \<open>Handling the blocks of a chunk\<close>

text \<open>
  \<^verbatim>\<open>interface ProgressState\<close>, filled with \<^verbatim>\<open>data.current\<close>, \<^verbatim>\<open>data.total\<close> and \<^verbatim>\<open>data.error\<close>
  as they are: \<open>None\<close> is \<^verbatim>\<open>undefined\<close>. (The suffix tells the fields from those of
  \<open>ProgressUpdate\<close>.)
\<close>

record ProgressState =
  current_c :: "json option"
  total_c :: "json option"
  error_c :: "json option"

text \<open>
  A file offered for saving by lines 88 to 96: the name given to \<^verbatim>\<open>a.download\<close> and the
  value the \<^verbatim>\<open>Blob\<close> is built from.
\<close>

record saved_file =
  download :: string
  blob_part :: json

text \<open>What the loop over the blocks changes: the progress shown and the files saved.\<close>

record client_state =
  progress :: ProgressState
  saved :: "saved_file list"

text \<open>
  What the loop over the blocks throws: the \<^verbatim>\<open>SyntaxError\<close> of \<^verbatim>\<open>JSON.parse\<close>, the
  \<^verbatim>\<open>TypeError\<close> of reading a property of \<^verbatim>\<open>null\<close>, or the \<^verbatim>\<open>Error\<close> of line 100, made
  from \<^verbatim>\<open>data.error\<close>.
\<close>

datatype client_thrown = Syntax_error | Type_error | Server_error "json option"

text \<open>
  \<^verbatim>\<open>data.name\<close> for a parsed value: a \<^verbatim>\<open>TypeError\<close> on \<^verbatim>\<open>null\<close>, the member of that name on
  an object (the last one, if the text repeated the name), and \<^verbatim>\<open>undefined\<close> on every
  other value, for the three names the controller reads.
\<close>

definition get_property :: "json \<Rightarrow> string \<Rightarrow> client_thrown + json option" where
  "get_property data name =
     (case data of
        JNull \<Rightarrow> Inl Type_error
      | JObject members \<Rightarrow> Inr (map_of (rev members) name)
      | _ \<Rightarrow> Inr None)"

text \<open>
  The body of \<^verbatim>\<open>for (const line of lines)\<close> (lines 71 to 101) for one block. The first
  two lines of the block are the event line and the data line; a line that is absent or
  empty is falsy, and the block is skipped. The result is \<open>None\<close> where the model of
  \<^verbatim>\<open>JSON.parse\<close> gives no answer on the data line.
\<close>

definition process_block :: "string \<Rightarrow> client_state \<Rightarrow> (client_thrown + client_state) option" where
  "process_block line st =
     (let (eventLine, dataLine) =
            (case split_on (CHR 0x0A) line of
               [] \<Rightarrow> ([], [])
             | [e] \<Rightarrow> (e, [])
             | e # d # rest \<Rightarrow> (e, d))
      in if eventLine = [] \<or> dataLine = [] then Some (Inr st)
         else
           (let event = remove_first ''event: '' eventLine in
            case JSON_parse (remove_first ''data: '' dataLine) of
              Not_modelled \<Rightarrow> None
            | SyntaxError \<Rightarrow> Some (Inl Syntax_error)
            | Value data \<Rightarrow>
                if event = ''progress'' then
                  (case get_property data ''current'' of
                     Inl err \<Rightarrow> Some (Inl err)
                   | Inr c \<Rightarrow>
                       (case get_property data ''total'' of
                          Inl err \<Rightarrow> Some (Inl err)
                        | Inr t \<Rightarrow>
                            (case get_property data ''error'' of
                               Inl err \<Rightarrow> Some (Inl err)
                             | Inr e \<Rightarrow>
                                 Some (Inr (st\<lparr>progress :=
                                   \<lparr>current_c = c, total_c = t, error_c = e\<rparr>\<rparr>)))))
                else if event = ''complete'' then
                  Some (Inr (st\<lparr>saved := saved st @
                    [\<lparr>download = ''stock_historical_data.csv'', blob_part = data\<rparr>]\<rparr>))
                else if event = ''error'' then
                  (case get_property data ''error'' of
                     Inl err \<Rightarrow> Some (Inl err)
                   | Inr e \<Rightarrow> Some (Inl (Server_error e)))
                else Some (Inr st)))"

text \<open>The loop over the blocks of a chunk: it ends at the first block that throws.\<close>

fun process_blocks :: "string list \<Rightarrow> client_state \<Rightarrow> (client_thrown + client_state) option" where
  "process_blocks [] st = Some (Inr st)"
| "process_blocks (line # lines) st =
     (case process_block line st of
        None \<Rightarrow> None
      | Some (Inl err) \<Rightarrow> Some (Inl err)
      | Some (Inr st') \<Rightarrow> process_blocks lines st')"

text \<open>
  A complete block as the handler writes it, \<^verbatim>\<open>event: complete\ndata: ${csv}\<close>, for a CSV of
  a header line and one data line, as json2csv prints them; and the same block with the
  bare column names, as json2csv prints the header when told not to quote.
\<close>

definition csv_block :: string where
  "csv_block =
     ''event: complete'' @ [CHR 0x0A] @
     ''data: \"symbol\",\"date\",\"open\",\"high\",\"low\",\"close\",\"volume\",\"adjClose\"'' @ [CHR 0x0A] @
     ''\"AAPL\",\"2023-01-03T00:00:00.000Z\",130,132,129,131,1000,131''"

definition csv_block_unquoted :: string where
  "csv_block_unquoted =
     ''event: complete'' @ [CHR 0x0A] @
     ''data: symbol,date,open,high,low,close,volume,adjClose'' @ [CHR 0x0A] @
     ''AAPL,2023-01-03T00:00:00.000Z,130,132,129,131,1000,131''"

definition progress_block :: string where
  "progress_block =
     ''event: progress'' @ [CHR 0x0A] @
     ''data: {\"type\":\"progress\",\"current\":1,\"total\":2,\"error\":\"Failed to fetch: BAD\"}''"

definition json_string_block :: string where
  "json_string_block = ''event: complete'' @ [CHR 0x0A] @ ''data: \"symbol,date\"''"

definition initial_client :: client_state where
  "initial_client =
     \<lparr>progress = \<lparr>current_c = Some (JNumber ''0''), total_c = Some (JNumber ''2''), error_c = None\<rparr>,
      saved = []\<rparr>"

section \<open>The request handler, on any stream and any body\<close>

subsection \<open>Reading the error field of a progress event\<close>

text \<open>
  \<^verbatim>\<open>s.split(sep)\<close> and \<^verbatim>\<open>s.includes(sep)\<close> for a separator that is not empty: what a reader of
  the event stream does to get the failed symbols back from the \<^verbatim>\<open>error\<close> field.
\<close>

fun split_str :: "string \<Rightarrow> string \<Rightarrow> string list" where
  "split_str sep [] = [[]]"
| "split_str sep (c # cs) =
     (if starts_with sep (c # cs) then [] # split_str sep (drop (length sep - 1) cs)
      else (case split_str sep cs of
              [] \<Rightarrow> [[c]]
            | piece # pieces \<Rightarrow> (c # piece) # pieces))"

fun contains_str :: "string \<Rightarrow> string \<Rightarrow> bool" where
  "contains_str sep [] = starts_with sep []"
| "contains_str sep (c # cs) = (starts_with sep (c # cs) \<or> contains_str sep cs)"

text \<open>
  The entries of the comma-plus-space-separated list in an \<^verbatim>\<open>error\<close> field: what follows the
  prefix \<^verbatim>\<open>Failed to fetch: \<close>, split at \<^verbatim>\<open>, \<close>; no entry where the field is absent.
\<close>

definition error_entries :: "string option \<Rightarrow> string list" where
  "error_entries err =
     (case err of
        None \<Rightarrow> []
      | Some s \<Rightarrow>
          if starts_with ''Failed to fetch: '' s
          then split_str '', '' (drop (length ''Failed to fetch: '') s)
          else [])"

subsection \<open>The task on a stream that may fail\<close>

text \<open>
  \<^verbatim>\<open>await writer.write(...)\<close> and \<^verbatim>\<open>await writer.close()\<close> reject when the stream has failed,
  as it has once the client is gone. A writer tells, for the operation on the stream
  numbered \<open>i\<close> (from 0, writes and closings counted together), whether it is accepted
  (\<open>None\<close>) or rejected with a value. In the effects \<open>Write\<close> and \<open>Close\<close> are the
  operations attempted.
\<close>

type_synonym writer = "nat \<Rightarrow> thrown option"

fun is_writer_op :: "('d, 'csv) effect \<Rightarrow> bool" where
  "is_writer_op (Write ev) = True"
| "is_writer_op Close = True"
| "is_writer_op _ = False"

definition writer_ops :: "('d, 'csv) effect list \<Rightarrow> nat" where
  "writer_ops effs = length (filter is_writer_op effs)"

definition accepts_all :: "writer \<Rightarrow> bool" where
  "accepts_all w \<longleftrightarrow> (\<forall>i. w i = None)"

text \<open>
  A stream that fails for good before its operation number \<open>m\<close>: every operation from
  then on is rejected, with \<open>err\<close>.
\<close>

definition fails_from :: "nat \<Rightarrow> thrown \<Rightarrow> writer" where
  "fails_from m err = (\<lambda>i. if i < m then None else Some err)"

text \<open>
  The loop of lines 59 to 93: \<open>loop_body\<close> is one iteration, whose last effect is the write
  of line 90; when that write is rejected the loop is left with the value thrown.
\<close>

fun for_symbols ::
  "('d, 'n, 'csv) env \<Rightarrow> writer \<Rightarrow> 'd queryOptions \<Rightarrow> nat \<Rightarrow> ('d, 'n, 'csv) loop_state \<Rightarrow>
     string list \<Rightarrow> thrown option \<times> ('d, 'n, 'csv) loop_state" where
  "for_symbols e w opts n st [] = (None, st)"
| "for_symbols e w opts n st (smb # rest) =
     (case w (writer_ops (effects st)) of
        Some err \<Rightarrow> (Some err, loop_body e opts n st smb)
      | None \<Rightarrow> for_symbols e w opts n (loop_body e opts n st smb) rest)"

text \<open>
  The outer \<^verbatim>\<open>catch\<close> (lines 105 to 112), entered after the effects \<open>effs\<close>: when the write of
  line 108 is rejected the task ends with it, and line 111 is not reached.
\<close>

definition catch_on :: "writer \<Rightarrow> ('d, 'csv) effect list \<Rightarrow> thrown \<Rightarrow> ('d, 'csv) effect list" where
  "catch_on w effs err =
     (let errorMessage = (case err of Error m \<Rightarrow> m | Thrown_value \<Rightarrow> ''An error occurred'')
      in case w (writer_ops effs) of
           Some err' \<Rightarrow> effs @ [Write (Error_event errorMessage)]
         | None \<Rightarrow> effs @ [Write (Error_event errorMessage), Close])"

text \<open>The task started at line 47, on the writer \<open>w\<close>.\<close>

definition stream_task_on ::
  "('d, 'n, 'csv) env \<Rightarrow> writer \<Rightarrow> StockDataRequest \<Rightarrow> ('d, 'csv) effect list" where
  "stream_task_on e w r =
     (case symbols r of
        None \<Rightarrow> catch_on w [] (Error ''symbols is not iterable'')
      | Some syms \<Rightarrow>
          (case for_symbols e w (query_options e r) (length syms) initial_state syms of
             (Some err, st) \<Rightarrow> catch_on w (effects st) err
           | (None, st) \<Rightarrow>
               if length (allResults st) = 0
               then catch_on w (effects st) (Error ''No valid data retrieved for any symbols'')
               else (case parse e fields_p (allResults st) of
                       Inl err \<Rightarrow> catch_on w (effects st) err
                     | Inr csv \<Rightarrow>
                         (case w (writer_ops (effects st)) of
                            Some err \<Rightarrow> catch_on w (effects st @ [Write (Complete csv)]) err
                          | None \<Rightarrow>
                              (case w (writer_ops (effects st) + 1) of
                                 Some err \<Rightarrow>
                                   catch_on w (effects st @ [Write (Complete csv), Close]) err
                               | None \<Rightarrow> effects st @ [Write (Complete csv), Close])))))"

subsection \<open>The handler on any body\<close>

text \<open>
  Line 34 takes the four fields out of whatever \<^verbatim>\<open>req.json()\<close> yields. On \<^verbatim>\<open>null\<close> the
  destructuring throws; on any other value a field is the member of that name of an object,
  and \<^verbatim>\<open>undefined\<close> (\<open>None\<close>) otherwise.
\<close>

definition property_of :: "json \<Rightarrow> string \<Rightarrow> json option" where
  "property_of v name = (case v of JObject members \<Rightarrow> map_of (rev members) name | _ \<Rightarrow> None)"

text \<open>
  Truthiness, as \<^verbatim>\<open>!x\<close> tests it. Whether the text of a number denotes zero is the engine's
  reading of the number, taken as the parameter \<open>nz\<close>.
\<close>

definition truthy :: "(string \<Rightarrow> bool) \<Rightarrow> json option \<Rightarrow> bool" where
  "truthy nz x =
     (case x of
        None \<Rightarrow> False
      | Some JNull \<Rightarrow> False
      | Some (JBool b) \<Rightarrow> b
      | Some (JNumber n) \<Rightarrow> nz n
      | Some (JString cs) \<Rightarrow> cs \<noteq> []
      | Some (JArray xs) \<Rightarrow> True
      | Some (JObject members) \<Rightarrow> True)"

text \<open>
  The truthiness of \<^verbatim>\<open>symbols?.length\<close>: the number of elements of an array, the length of a
  string, the member \<^verbatim>\<open>length\<close> of an object, and \<^verbatim>\<open>undefined\<close> on every other value.
\<close>

definition truthy_length :: "(string \<Rightarrow> bool) \<Rightarrow> json option \<Rightarrow> bool" where
  "truthy_length nz x =
     (case x of
        None \<Rightarrow> False
      | Some JNull \<Rightarrow> False
      | Some (JBool b) \<Rightarrow> False
      | Some (JNumber n) \<Rightarrow> False
      | Some (JString cs) \<Rightarrow> length cs \<noteq> 0
      | Some (JArray xs) \<Rightarrow> length xs \<noteq> 0
      | Some (JObject members) \<Rightarrow> truthy nz (map_of (rev members) ''length''))"

text \<open>
  A body that fits \<^verbatim>\<open>interface StockDataRequest\<close>: an object whose \<^verbatim>\<open>symbols\<close> is an array of
  strings or absent, and whose other three fields are strings or absent.
\<close>

fun strings_of :: "json list \<Rightarrow> string list option" where
  "strings_of [] = Some []"
| "strings_of (JString s # xs) = map_option ((#) s) (strings_of xs)"
| "strings_of (x # xs) = None"

definition string_field :: "json option \<Rightarrow> string option option" where
  "string_field x =
     (case x of None \<Rightarrow> Some None | Some (JString s) \<Rightarrow> Some (Some s) | Some other \<Rightarrow> None)"

definition strings_field :: "json option \<Rightarrow> string list option option" where
  "strings_field x =
     (case x of
        None \<Rightarrow> Some None
      | Some (JArray xs) \<Rightarrow> map_option Some (strings_of xs)
      | Some other \<Rightarrow> None)"

definition typed_request :: "json \<Rightarrow> StockDataRequest option" where
  "typed_request v =
     (case v of
        JObject members \<Rightarrow>
          (case (strings_field (property_of v ''symbols''), string_field (property_of v ''startDate''),
                 string_field (property_of v ''endDate''), string_field (property_of v ''interval'')) of
             (Some a, Some b, Some c, Some d) \<Rightarrow>
               Some \<lparr>symbols = a, startDate = b, endDate = c, interval = d\<rparr>
           | _ \<Rightarrow> None)
      | _ \<Rightarrow> None)"

text \<open>
  \<^verbatim>\<open>POST\<close> on what \<^verbatim>\<open>await req.json()\<close> yields, whatever it is: the response, and the effects
  of the task on a stream that accepts every operation. The effects are given for a body that
  fits the interface; what the task does with symbols that are not strings is not modelled
  (\<open>None\<close>). The \<^verbatim>\<open>TypeError\<close> of destructuring \<^verbatim>\<open>null\<close> is caught at line 122.
\<close>

definition POST_json ::
  "('d, 'n, 'csv) env \<Rightarrow> (string \<Rightarrow> bool) \<Rightarrow> thrown + json \<Rightarrow>
     response \<times> ('d, 'csv) effect list option" where
  "POST_json e nz body =
     (case body of
        Inl err \<Rightarrow> (NextResponse_json ''Failed to fetch stock data'' 500, Some [])
      | Inr v \<Rightarrow>
          if v = JNull then (NextResponse_json ''Failed to fetch stock data'' 500, Some [])
          else if \<not> truthy_length nz (property_of v ''symbols'') \<or>
                  \<not> truthy nz (property_of v ''startDate'') \<or>
                  \<not> truthy nz (property_of v ''endDate'')
          then (NextResponse_json ''Missing required fields'' 400, Some [])
          else (Response_stream 200 stream_headers, map_option (stream_task e) (typed_request v)))"

text \<open>
  A reading of number texts for the examples: a number is zero when its digits before the
  exponent are all zeros. (Numbers too small for a double, which the engine reads as zero,
  are not told apart.)
\<close>

definition mantissa_nonzero :: "string \<Rightarrow> bool" where
  "mantissa_nonzero n \<longleftrightarrow>
     (\<exists>c \<in> set (takeWhile (\<lambda>c. c \<noteq> CHR ''e'' \<and> c \<noteq> CHR ''E'') n).
        (0x31::nat) \<le> of_char c \<and> (of_char c :: nat) \<le> 0x39)"

definition demo_body :: "json \<Rightarrow> json \<Rightarrow> json" where
  "demo_body syms start =
     JObject [(''symbols'', syms), (''startDate'', start),
              (''endDate'', JString ''2023-01-05''), (''interval'', JString ''1d'')]"

section \<open>The loop, turn by turn\<close>

lemma try_symbol_outcome:
  "snd (try_symbol e opts k (syms ! k)) =
     (if fails e opts syms k then Inl (case quote e k (syms ! k) of Inl err \<Rightarrow> err
          | Inr q \<Rightarrow> if \<not> q then Error ''Invalid symbol''
                    else (case historical e k (syms ! k) opts of Inl err \<Rightarrow> err | Inr x \<Rightarrow> Thrown_value))
      else Inr (map (with_symbol (syms ! k)) (returned_rows e opts syms k)))"
  by (auto simp: try_symbol_def fails_def returned_rows_def split: sum.splits)

lemma fails_iff: "fails e opts syms k \<longleftrightarrow> \<not> succeeds e opts syms k"
  by (cases "quote e k (syms ! k)") (auto simp: fails_def succeeds_def)

lemma returned_rows_fails: "fails e opts syms k \<Longrightarrow> returned_rows e opts syms k = []"
  by (auto simp: fails_def returned_rows_def split: sum.splits)

lemma failed_upto_Suc:
  "failed_upto e opts syms (Suc k) =
     failed_upto e opts syms k @ (if fails e opts syms k then [syms ! k] else [])"
  by (simp add: failed_upto_def)

lemma tagged_upto_Suc:
  "tagged_upto e opts syms (Suc k) =
     tagged_upto e opts syms k @ map (with_symbol (syms ! k)) (returned_rows e opts syms k)"
  by (simp add: tagged_upto_def)

lemma loop_body_eq:
  assumes "processedCount st = k"
  shows "loop_body e opts (length syms) st (syms ! k) =
     \<lparr>allResults = allResults st @ map (with_symbol (syms ! k)) (returned_rows e opts syms k),
      processedCount = k + 1,
      failedSymbols = failedSymbols st @ (if fails e opts syms k then [syms ! k] else []),
      effects = effects st @ fst (try_symbol e opts k (syms ! k)) @
        [Write (Progress \<lparr>current = k + 1, total_p = length syms,
           error_p = progress_error (failedSymbols st @ (if fails e opts syms k then [syms ! k] else []))\<rparr>)]\<rparr>"
  using assms try_symbol_outcome[of e opts k syms]
  by (cases "try_symbol e opts k (syms ! k)")
     (auto simp: loop_body_def Let_def returned_rows_fails split: sum.splits)

lemma loop_take:
  "k \<le> length syms \<Longrightarrow>
   foldl (loop_body e opts (length syms)) initial_state (take k syms) =
     \<lparr>allResults = tagged_upto e opts syms k, processedCount = k,
      failedSymbols = failed_upto e opts syms k,
      effects = concat (map (turn e opts syms) [0..<k])\<rparr>"
proof (induction k)
  case 0
  show ?case by (simp add: initial_state_def tagged_upto_def failed_upto_def)
next
  case (Suc k)
  then have k: "k < length syms" by simp
  have "take (Suc k) syms = take k syms @ [syms ! k]"
    using k by (simp add: take_Suc_conv_app_nth)
  then show ?case
    using Suc.IH k
    by (simp add: loop_body_eq failed_upto_Suc tagged_upto_Suc turn_def progress_at_def)
qed

lemma run_loop_eq:
  "run_loop e opts syms =
     \<lparr>allResults = tagged_upto e opts syms (length syms), processedCount = length syms,
      failedSymbols = failed_upto e opts syms (length syms),
      effects = concat (map (turn e opts syms) [0..<length syms])\<rparr>"
  using loop_take[of "length syms" syms e opts] by (simp add: run_loop_def)


lemma stream_task_eq:
  "symbols r = Some syms \<Longrightarrow>
   stream_task e r =
     concat (map (turn e (query_options e r) syms) [0..<length syms]) @
     terminal e (query_options e r) syms"
  by (simp add: stream_task_def run_loop_eq terminal_def catch_error_def Let_def
           split: sum.splits thrown.splits)

lemma missing_required_iff:
  "missing_required r \<longleftrightarrow>
     symbols r = None \<or> symbols r = Some [] \<or> startDate r = None \<or> startDate r = Some [] \<or>
     endDate r = None \<or> endDate r = Some []"
  by (auto simp: missing_required_def falsy_length_def falsy_string_def split: option.splits)

lemma POST_stream:
  "\<not> missing_required r \<Longrightarrow> symbols r = Some syms \<Longrightarrow>
   POST e (Inr r) =
     (Response_stream 200 stream_headers,
      concat (map (turn e (query_options e r) syms) [0..<length syms]) @
      terminal e (query_options e r) syms)"
  by (simp add: POST_def stream_task_eq)

lemma progress_updates_append [simp]:
  "progress_updates (xs @ ys) = progress_updates xs @ progress_updates ys"
  by (simp add: progress_updates_def)

lemma complete_payloads_append [simp]:
  "complete_payloads (xs @ ys) = complete_payloads xs @ complete_payloads ys"
  by (simp add: complete_payloads_def)

lemma error_messages_append [simp]:
  "error_messages (xs @ ys) = error_messages xs @ error_messages ys"
  by (simp add: error_messages_def)

lemma close_count_append [simp]: "close_count (xs @ ys) = close_count xs + close_count ys"
  by (simp add: close_count_def)

lemma observed_Nil [simp]:
  "progress_updates [] = []" "complete_payloads [] = []" "error_messages [] = []"
  "close_count [] = 0"
  by (simp_all add: progress_updates_def complete_payloads_def error_messages_def close_count_def)

lemma try_symbol_calls:
  "fst (try_symbol e opts k s) =
     [Delay 1000, Quote_call s] @
     (if quote e k s = Inr True then [Historical_call s opts] else [])"
  by (cases "quote e k s") (auto simp: try_symbol_def split: sum.splits)

lemma turn_observed:
  "progress_updates (turn e opts syms k) = [progress_at e opts syms k]"
  "complete_payloads (turn e opts syms k) = []"
  "error_messages (turn e opts syms k) = []"
  "close_count (turn e opts syms k) = 0"
  by (simp_all add: turn_def try_symbol_calls progress_updates_def complete_payloads_def
        error_messages_def close_count_def)

lemma turns_observed:
  "progress_updates (concat (map (turn e opts syms) ks)) = map (progress_at e opts syms) ks"
  "complete_payloads (concat (map (turn e opts syms) ks)) = []"
  "error_messages (concat (map (turn e opts syms) ks)) = []"
  "close_count (concat (map (turn e opts syms) ks)) = 0"
  by (induction ks) (simp_all add: turn_observed)

lemma terminal_observed:
  "progress_updates (terminal e opts syms) = []"
  "close_count (terminal e opts syms) = 1"
  "last (terminal e opts syms) = Close"
  "terminal e opts syms \<noteq> []"
  by (simp_all add: terminal_def progress_updates_def close_count_def
        split: sum.splits thrown.splits)

lemma allResults_run_loop:
  "allResults (run_loop e opts syms) = tagged_upto e opts syms (length syms)"
  by (simp add: run_loop_eq)

lemma tagged_upto_empty_iff:
  "tagged_upto e opts syms n = [] \<longleftrightarrow> (\<forall>k<n. returned_rows e opts syms k = [])"
  by (induction n) (auto simp: tagged_upto_Suc tagged_upto_def less_Suc_eq)

lemma length_tagged_upto:
  "length (tagged_upto e opts syms n) =
     sum_list (map (\<lambda>k. length (returned_rows e opts syms k)) [0..<n])"
  by (induction n) (simp_all add: tagged_upto_Suc tagged_upto_def)

lemma sum_list_filter_zero:
  "(\<And>x. x \<in> set xs \<Longrightarrow> \<not> P x \<Longrightarrow> f x = (0::nat)) \<Longrightarrow>
   sum_list (map f (filter P xs)) = sum_list (map f xs)"
  by (induction xs) auto

lemma sum_returned_successful:
  "sum_list (map (\<lambda>k. length (returned_rows e opts syms k)) (filter (succeeds e opts syms) [0..<n])) =
   sum_list (map (\<lambda>k. length (returned_rows e opts syms k)) [0..<n])"
  by (rule sum_list_filter_zero) (simp add: returned_rows_fails fails_iff)

lemma terminal_empty:
  "tagged_upto e opts syms (length syms) = [] \<Longrightarrow>
   terminal e opts syms = [Write (Error_event ''No valid data retrieved for any symbols''), Close]"
  by (simp add: terminal_def)

lemma observed_single [simp]:
  "complete_payloads [Write (Complete c), Close] = [c]"
  "error_messages [Write (Complete c), Close] = []"
  "complete_payloads [Write (Error_event m), Close] = []"
  "error_messages [Write (Error_event m), Close] = [m]"
  "close_count [Write ev, Close] = 1"
  by (simp_all add: complete_payloads_def error_messages_def close_count_def)

lemma accumulator_empty_iff:
  "allResults (run_loop e opts syms) = [] \<longleftrightarrow>
     (\<forall>k<length syms. fails e opts syms k \<or> returned_rows e opts syms k = [])"
  using returned_rows_fails[of e opts syms]
  by (auto simp: allResults_run_loop tagged_upto_empty_iff)

lemma progress_updates_nth:
  "\<not> missing_required r \<Longrightarrow> symbols r = Some syms \<Longrightarrow> k < length syms \<Longrightarrow>
   progress_updates (snd (POST e (Inr r))) ! k = progress_at e (query_options e r) syms k"
  by (simp add: POST_stream turns_observed terminal_observed)

lemma failed_upto_none:
  "(\<forall>j<k. \<not> fails e opts syms j) \<Longrightarrow> failed_upto e opts syms k = []"
  by (simp add: failed_upto_def filter_empty_conv)

lemma progress_error_Nil [simp]: "progress_error [] = None"
  by (simp add: progress_error_def)

lemma column_symbol:
  "column ''symbol'' \<lparr>csv_header = fields_p, csv_rows = map (\<lambda>row. map (\<lambda>f. field_value f row) fields_p) rows\<rparr>
     = Some (map (\<lambda>row. Text (symbol row)) rows)"
  by (simp add: column_def fields_p_def cell_at_def field_value_def)

lemma column_date:
  "column ''date'' \<lparr>csv_header = fields_p, csv_rows = map (\<lambda>row. map (\<lambda>f. field_value f row) fields_p) rows\<rparr>
     = Some (map (\<lambda>row. Date_cell (date row)) rows)"
  by (simp add: column_def fields_p_def cell_at_def field_value_def)

lemma symbol_date_pairs_json2csv:
  "json2csv_parse fields_p rows = Inr t \<Longrightarrow>
   symbol_date_pairs t = Some (map (\<lambda>row. (Text (symbol row), Date_cell (date row))) rows)"
  by (auto simp: json2csv_parse_def symbol_date_pairs_def column_symbol column_date zip_map_map
        intro!: nth_equalityI)

lemma tagged_pairs:
  "map (\<lambda>row. (Text (symbol row), Date_cell (date row))) (tagged_upto e opts syms n) =
   concat (map (\<lambda>k. map (\<lambda>item. (Text (syms ! k), Date_cell (date item)))
                       (returned_rows e opts syms k)) [0..<n])"
  by (induction n) (simp_all add: tagged_upto_Suc tagged_upto_def with_symbol_def comp_def)

lemma terminal_json2csv:
  "parse e = json2csv_parse \<Longrightarrow> tagged_upto e opts syms (length syms) \<noteq> [] \<Longrightarrow>
   terminal e opts syms =
     [Write (Complete \<lparr>csv_header = fields_p,
        csv_rows = map (\<lambda>row. map (\<lambda>f. field_value f row) fields_p)
                     (tagged_upto e opts syms (length syms))\<rparr>), Close]"
  by (simp add: terminal_def json2csv_parse_def)

lemma demo_complete:
  "complete_payloads (snd (POST demo_env (Inr (demo_request [''AAPL'', ''BAD''])))) =
     [\<lparr>csv_header = [''symbol'', ''date'', ''open'', ''high'', ''low'', ''close'', ''volume'', ''adjClose''],
       csv_rows =
         [[Text ''AAPL'', Date_cell ''2023-01-03'', Number 130, Number 132, Number 129,
           Number 131, Number 1000, Number 131],
          [Text ''AAPL'', Date_cell ''2023-01-04'', Number 126, Number 128, Number 125,
           Number 127, Number 1000, Number 127]]\<rparr>]"
  by code_simp



lemma length_progress_updates:
  "\<not> missing_required r \<Longrightarrow> symbols r = Some syms \<Longrightarrow>
   length (progress_updates (snd (POST e (Inr r)))) = length syms"
  by (simp add: POST_stream turns_observed terminal_observed)

lemma failedSymbols_run_loop:
  "failedSymbols (run_loop e opts syms) = failed_upto e opts syms (length syms)"
  by (simp add: run_loop_eq)

lemma count_list_filter: "count_list xs y = length (filter (\<lambda>x. x = y) xs)"
  by (induction xs) simp_all

lemma count_filter_concat:
  "length (filter P (concat xss)) = sum_list (map (\<lambda>xs. length (filter P xs)) xss)"
  by (induction xss) simp_all

lemma sum_list_indicator:
  "sum_list (map (\<lambda>k. if Q k then 1 else 0) ks) = length (filter Q ks)"
  by (induction ks) simp_all

lemma filter_nth_upt:
  "length (filter (\<lambda>j. P (xs ! j)) [0..<length xs]) = length (filter P xs)"
proof -
  have "filter P xs = filter P (map (\<lambda>j. xs ! j) [0..<length xs])"
    by (simp add: map_nth)
  then show ?thesis
    by (simp add: filter_map comp_def)
qed

lemma effects_count:
  assumes "\<not> missing_required r" and "symbols r = Some syms"
    and "\<And>k. length (filter P (turn e (query_options e r) syms k)) = (if Q k then 1 else 0)"
    and "length (filter P (terminal e (query_options e r) syms)) = 0"
  shows "length (filter P (snd (POST e (Inr r)))) = length (filter Q [0..<length syms])"
proof -
  have "sum_list (map (\<lambda>k. length (filter P (turn e (query_options e r) syms k))) ks) =
      sum_list (map (\<lambda>k. if Q k then 1 else 0) ks)" for ks
    by (simp add: assms(3))
  then show ?thesis
    using POST_stream[OF assms(1,2), of e] assms(4)
    by (simp add: count_filter_concat sum_list_indicator comp_def)
qed

lemma turn_counts:
  "length (filter (\<lambda>x. x = Delay 1000) (turn e opts syms k)) = (if True then 1 else 0)"
  "length (filter (\<lambda>x. x = Quote_call S) (turn e opts syms k)) = (if syms ! k = S then 1 else 0)"
  "length (filter (\<lambda>x. x = Historical_call S opts) (turn e opts syms k)) =
     (if syms ! k = S \<and> quote e k S = Inr True then 1 else 0)"
  by (auto simp: turn_def try_symbol_calls)

lemma terminal_no_calls:
  "length (filter (\<lambda>x. x = Delay ms) (terminal e opts syms)) = 0"
  "length (filter (\<lambda>x. x = Quote_call S) (terminal e opts syms)) = 0"
  "length (filter (\<lambda>x. x = Historical_call S o') (terminal e opts syms)) = 0"
  by (simp_all add: terminal_def split: sum.splits thrown.splits)

lemma count_failed_upto:
  "count_list (failed_upto e opts syms k) S =
     length (filter (\<lambda>j. syms ! j = S \<and> fails e opts syms j) [0..<k])"
  by (induction k) (auto simp: failed_upto_Suc failed_upto_def)

lemma count_take:
  "k \<le> length syms \<Longrightarrow>
   count_list (take k syms) S = length (filter (\<lambda>j. syms ! j = S) [0..<k])"
proof (induction k)
  case 0
  show ?case by simp
next
  case (Suc k)
  then show ?case by (simp add: take_Suc_conv_app_nth)
qed

lemma split_str_single:
  "\<not> contains_str '', '' x \<Longrightarrow> split_str '', '' x = [x]"
  by (induction x) auto

lemma split_str_append_sep:
  "\<not> contains_str '', '' x \<Longrightarrow> split_str '', '' (x @ '', '' @ rest) = x # split_str '', '' rest"
proof (induction x)
  case Nil
  show ?case by simp
next
  case (Cons c cs)
  then have ih: "split_str '', '' (cs @ '', '' @ rest) = cs # split_str '', '' rest"
    by simp
  have "\<not> starts_with '', '' (c # cs @ '', '' @ rest)"
    using Cons.prems by (cases cs) auto
  then show ?case
    using ih by simp
qed

lemma split_str_join:
  "xs \<noteq> [] \<Longrightarrow> \<forall>x\<in>set xs. \<not> contains_str '', '' x \<Longrightarrow>
   split_str '', '' (join '', '' xs) = xs"
proof (induction "'', ''" xs rule: join.induct)
  case 1
  then show ?case by simp
next
  case (2 x)
  then show ?case by (simp add: split_str_single)
next
  case (3 x y ys)
  then have "split_str '', '' (join '', '' (y # ys)) = y # ys"
    by simp
  moreover have "\<not> contains_str '', '' x"
    using 3 by simp
  ultimately show ?case
    using split_str_append_sep[of x "join '', '' (y # ys)"] by simp
qed

lemma starts_with_append [simp]: "starts_with p (p @ s)"
  by (induction p) simp_all

lemma error_entries_progress_error:
  "\<forall>x\<in>set xs. \<not> contains_str '', '' x \<Longrightarrow> error_entries (progress_error xs) = xs"
proof (cases xs)
  case Nil
  then show ?thesis by (simp add: error_entries_def)
next
  case (Cons a as)
  assume h: "\<forall>x\<in>set xs. \<not> contains_str '', '' x"
  have "progress_error xs = Some (''Failed to fetch: '' @ join '', '' xs)"
    using Cons by (simp add: progress_error_def)
  moreover have "starts_with ''Failed to fetch: '' (''Failed to fetch: '' @ join '', '' xs)"
    by (rule starts_with_append)
  moreover have "split_str '', '' (join '', '' xs) = xs"
    using Cons h by (intro split_str_join) auto
  ultimately show ?thesis
    unfolding error_entries_def by (simp del: starts_with.simps)
qed

lemma set_failed_upto_subset:
  "k \<le> length syms \<Longrightarrow> set (failed_upto e opts syms k) \<subseteq> set syms"
  by (auto simp: failed_upto_def)

lemma error_entries_event:
  assumes "\<not> missing_required r" and "symbols r = Some syms"
    and "\<forall>s\<in>set syms. \<not> contains_str '', '' s" and "k < length syms"
  shows "error_entries (error_p (progress_updates (snd (POST e (Inr r))) ! k)) =
           failed_upto e (query_options e r) syms (k + 1)"
proof -
  have "\<forall>x\<in>set (failed_upto e (query_options e r) syms (k + 1)). \<not> contains_str '', '' x"
    using set_failed_upto_subset[of "k + 1" syms e "query_options e r"] assms(3,4) by auto
  then show ?thesis
    using progress_updates_nth[OF assms(1,2,4), of e]
    by (simp add: progress_at_def error_entries_progress_error)
qed

lemma for_symbols_accepts_all:
  "accepts_all w \<Longrightarrow> for_symbols e w opts n st syms = (None, foldl (loop_body e opts n) st syms)"
  by (induction syms arbitrary: st) (simp_all add: accepts_all_def)

lemma catch_on_accepts_all:
  "accepts_all w \<Longrightarrow> catch_on w effs err = catch_error effs err"
  by (simp add: catch_on_def catch_error_def accepts_all_def)

lemma stream_task_on_accepts_all:
  "accepts_all w \<Longrightarrow> stream_task_on e w r = stream_task e r"
  by (simp add: stream_task_on_def stream_task_def for_symbols_accepts_all catch_on_accepts_all
        run_loop_def Let_def accepts_all_def split: option.splits sum.splits)

lemma task_is_stream_task:
  "\<not> missing_required r \<Longrightarrow> snd (POST e (Inr r)) = stream_task e r"
  by (simp add: POST_def)

lemma strings_of_length: "strings_of xs = Some ys \<Longrightarrow> length ys = length xs"
proof (induction xs arbitrary: ys rule: strings_of.induct)
  case 1
  then show ?case by simp
next
  case (2 s xs)
  then show ?case by auto
qed simp_all

lemma POST_json_typed:
  assumes "typed_request v = Some r"
  shows "POST_json e nz (Inr v) = (fst (POST e (Inr r)), Some (snd (POST e (Inr r))))"
proof -
  from assms obtain members where v: "v = JObject members"
    by (cases v) (simp_all add: typed_request_def)
  from assms have
    a: "strings_field (property_of v ''symbols'') = Some (symbols r)" and
    b: "string_field (property_of v ''startDate'') = Some (startDate r)" and
    c: "string_field (property_of v ''endDate'') = Some (endDate r)"
    by (auto simp: typed_request_def v split: option.splits)
  have s: "truthy_length nz (property_of v ''symbols'') \<longleftrightarrow> \<not> falsy_length (symbols r)"
    using a
    by (auto simp: strings_field_def truthy_length_def falsy_length_def
          split: option.splits json.splits dest: strings_of_length)
  have d: "truthy nz x \<longleftrightarrow> \<not> falsy_string y" if "string_field x = Some y" for x y
    using that
    by (auto simp: string_field_def truthy_def falsy_string_def split: option.splits json.splits)
  show ?thesis
    using assms s d[OF b] d[OF c]
    by (simp add: POST_json_def POST_def missing_required_def v)
qed

lemma not_truthy_length_iff:
  "\<not> truthy_length nz s \<longleftrightarrow>
     s = None \<or> s = Some JNull \<or> s = Some (JArray []) \<or> s = Some (JString []) \<or>
     (\<exists>b. s = Some (JBool b)) \<or> (\<exists>n. s = Some (JNumber n)) \<or>
     (\<exists>members. s = Some (JObject members) \<and> \<not> truthy nz (map_of (rev members) ''length''))"
  by (auto simp: truthy_length_def split: option.splits json.splits)

lemma not_truthy_iff:
  "\<not> truthy nz d \<longleftrightarrow>
     d = None \<or> d = Some JNull \<or> d = Some (JBool False) \<or> d = Some (JString []) \<or>
     (\<exists>n. d = Some (JNumber n) \<and> \<not> nz n)"
  by (auto simp: truthy_def split: option.splits json.splits)

lemma property_of_other_member:
  "name \<noteq> key \<Longrightarrow>
   property_of (JObject (members @ [(key, x)])) name = property_of (JObject members) name"
  by (simp add: property_of_def)

lemma writer_ops_append [simp]: "writer_ops (xs @ ys) = writer_ops xs + writer_ops ys"
  by (simp add: writer_ops_def)

lemma writer_ops_turn: "writer_ops (turn e opts syms k) = 1"
  by (simp add: turn_def try_symbol_calls writer_ops_def)

lemma writer_ops_turns: "writer_ops (concat (map (turn e opts syms) [0..<k])) = k"
  by (induction k) (simp_all add: writer_ops_turn, simp add: writer_ops_def)

lemma for_symbols_take:
  "k \<le> length syms \<Longrightarrow> m \<le> length syms \<Longrightarrow> k \<le> m \<Longrightarrow>
   for_symbols e (fails_from m err) opts (length syms)
       (foldl (loop_body e opts (length syms)) initial_state (take k syms)) (drop k syms) =
     (if m < length syms
      then (Some err, foldl (loop_body e opts (length syms)) initial_state (take (m + 1) syms))
      else (None, foldl (loop_body e opts (length syms)) initial_state syms))"
proof (induction "m - k" arbitrary: k)
  case 0
  then have km: "k = m" by simp
  show ?case
  proof (cases "m < length syms")
    case True
    then have d: "drop m syms = syms ! m # drop (m + 1) syms"
      by (simp add: Cons_nth_drop_Suc)
    have t: "take (Suc m) syms = take m syms @ [syms ! m]"
      using True by (simp add: take_Suc_conv_app_nth)
    have "writer_ops (effects (foldl (loop_body e opts (length syms)) initial_state (take m syms))) = m"
      using True by (simp add: loop_take writer_ops_turns)
    then show ?thesis
      using True km by (simp add: d t fails_from_def)
  next
    case False
    then have "m = length syms" using "0.prems" by simp
    then show ?thesis using km by simp
  qed
next
  case (Suc d)
  then have k: "k < m" "k < length syms" by simp_all
  have dr: "drop k syms = syms ! k # drop (k + 1) syms"
    using k by (simp add: Cons_nth_drop_Suc)
  have t: "take (Suc k) syms = take k syms @ [syms ! k]"
    using k by (simp add: take_Suc_conv_app_nth)
  have ih: "for_symbols e (fails_from m err) opts (length syms)
       (foldl (loop_body e opts (length syms)) initial_state (take (k + 1) syms)) (drop (k + 1) syms) =
     (if m < length syms
      then (Some err, foldl (loop_body e opts (length syms)) initial_state (take (m + 1) syms))
      else (None, foldl (loop_body e opts (length syms)) initial_state syms))"
    using Suc k by (intro Suc.hyps) simp_all
  have "writer_ops (effects (foldl (loop_body e opts (length syms)) initial_state (take k syms))) = k"
    using k by (simp add: loop_take writer_ops_turns)
  then show ?case
    using ih k by (simp add: dr t fails_from_def)
qed

text \<open>
  A stream that fails for good before the task has written its last event is never closed:
  the write that is rejected leads to the outer \<^verbatim>\<open>catch\<close>, whose own write is rejected too.
\<close>

lemma failed_stream_never_closed:
  assumes "\<not> missing_required r" and "symbols r = Some syms" and "m \<le> length syms"
  shows "close_count (stream_task_on e (fails_from m err) r) = 0"
proof -
  let ?o = "query_options e r"
  have fs: "for_symbols e (fails_from m err) ?o (length syms) initial_state syms =
     (if m < length syms
      then (Some err, foldl (loop_body e ?o (length syms)) initial_state (take (m + 1) syms))
      else (None, foldl (loop_body e ?o (length syms)) initial_state syms))"
    using for_symbols_take[of 0 syms m e err ?o] assms(3) by simp
  show ?thesis
  proof (cases "m < length syms")
    case True
    then show ?thesis
      using fs assms(2)
      by (simp add: stream_task_on_def loop_take catch_on_def writer_ops_turns writer_ops_turn
            fails_from_def turns_observed turn_observed close_count_def[of "[Write _]"] Let_def)
  next
    case False
    then have m: "m = length syms" using assms(3) by simp
    have full: "foldl (loop_body e ?o (length syms)) initial_state syms = run_loop e ?o syms"
      by (simp add: run_loop_def)
    show ?thesis
      using fs assms(2) m
      by (simp add: stream_task_on_def full run_loop_eq catch_on_def writer_ops_turns
            fails_from_def turns_observed close_count_def[of "[Write _]"]
            close_count_def[of "[Write _, Write _]"] writer_ops_def[of "[Write _]"] Let_def
            split: sum.splits)
  qed
qed

section \<open>The claims about the request handler\<close>

lemma demo_request_valid: "\<not> missing_required (demo_request (s # syms))"
  by (simp add: missing_required_def demo_request_def falsy_length_def falsy_string_def)

lemma demo_request_symbols: "symbols (demo_request syms) = Some syms"
  by (simp add: demo_request_def)

text \<open>
  The three ways out of the task, in the small world: the CSV is written; no row was
  retrieved; the CSV library throws something that is not an \<^verbatim>\<open>Error\<close>.
\<close>

lemma ways_out_examples:
  "drop 7 (snd (POST demo_env (Inr (demo_request [''AAPL'', ''BAD''])))) =
     [Write (Complete \<lparr>csv_header = fields_p,
        csv_rows =
          [[Text ''AAPL'', Date_cell ''2023-01-03'', Number 130, Number 132, Number 129,
            Number 131, Number 1000, Number 131],
           [Text ''AAPL'', Date_cell ''2023-01-04'', Number 126, Number 128, Number 125,
            Number 127, Number 1000, Number 127]]\<rparr>),
      Close]"
  "drop 3 (snd (POST demo_env (Inr (demo_request [''GONE''])))) =
     [Write (Error_event ''No valid data retrieved for any symbols''), Close]"
  "drop 4 (snd (POST (demo_env\<lparr>parse := \<lambda>fs rows. Inl Thrown_value\<rparr>)
                 (Inr (demo_request [''MSFT''])))) =
     [Write (Error_event ''An error occurred''), Close]"
  by code_simp+

text \<open>
  Claim C8, as the handler has it. On a stream that accepts every operation, the task started
  for a request that passed the test of line 36 closes the stream writer exactly once, and
  the closing is the last thing it does, whatever the Provider and the CSV library do: the
  CSV was written, no row was retrieved, or the CSV library threw.
\<close>

theorem stream_closed_once_on_a_live_stream:
  assumes "\<not> missing_required r" and "accepts_all w"
  shows "close_count (stream_task_on e w r) = 1 \<and> last (stream_task_on e w r) = Close"
proof -
  from assms(1) obtain syms where syms: "symbols r = Some syms"
    by (auto simp: missing_required_iff)
  have "stream_task_on e w r = stream_task e r"
    using assms(2) by (rule stream_task_on_accepts_all)
  then show ?thesis
    by (simp add: stream_task_eq[OF syms] turns_observed terminal_observed)
qed

theorem stream_closed_once_on_a_live_stream_witness:
  "\<not> missing_required (demo_request [''AAPL'', ''BAD'']) \<and>
   accepts_all (\<lambda>i. None) \<and>
   close_count (stream_task_on demo_env (\<lambda>i. None) (demo_request [''AAPL'', ''BAD''])) = 1 \<and>
   last (stream_task_on demo_env (\<lambda>i. None) (demo_request [''AAPL'', ''BAD''])) = Close"
proof -
  have h1: "\<not> missing_required (demo_request [''AAPL'', ''BAD''])"
    by (rule demo_request_valid)
  have h2: "accepts_all (\<lambda>i. None)"
    by (simp add: accepts_all_def)
  show ?thesis
    using h1 h2 stream_closed_once_on_a_live_stream [OF h1 h2, of demo_env] by blast
qed

text \<open>
  Claim C8 as stated fails on a stream that fails: when the client is gone after the first
  progress event, the write of the second one is rejected, the outer \<^verbatim>\<open>catch\<close> is entered,
  its own write (line 108) is rejected too, and \<^verbatim>\<open>writer.close()\<close> (line 111) is never called.
\<close>

theorem rejected_write_counterexample:
  "\<not> missing_required (demo_request [''AAPL'', ''BAD'']) \<and>
   stream_task_on demo_env (fails_from 1 (Error ''The stream has failed''))
       (demo_request [''AAPL'', ''BAD'']) =
     [Delay 1000, Quote_call ''AAPL'',
      Historical_call ''AAPL''
        \<lparr>period1 = ''2023-01-01'', period2 = ''2023-01-05'', interval_q = Some ''1d''\<rparr>,
      Write (Progress \<lparr>current = 1, total_p = 2, error_p = None\<rparr>),
      Delay 1000, Quote_call ''BAD'',
      Write (Progress \<lparr>current = 2, total_p = 2, error_p = Some ''Failed to fetch: BAD''\<rparr>),
      Write (Error_event ''The stream has failed'')] \<and>
   close_count (stream_task_on demo_env (fails_from 1 (Error ''The stream has failed''))
       (demo_request [''AAPL'', ''BAD''])) = 0"
  by code_simp

text \<open>
  Claim C3. For a request that passes the test of line 36, with \<open>n\<close> symbols, the handler
  writes exactly \<open>n\<close> progress events: the one of the symbol processed as number \<open>k\<close> ends
  the turn of that symbol, whether it succeeded or failed, and comes before the next turn;
  \<^verbatim>\<open>current\<close> runs through \<open>1, 2, ..., n\<close> and \<^verbatim>\<open>total\<close> is \<open>n\<close> in each; what the task does
  after the last turn holds no progress event.
\<close>

theorem progress_events_count_and_order:
  assumes "\<not> missing_required r" and "symbols r = Some syms"
  shows "progress_updates (snd (POST e (Inr r))) =
           map (progress_at e (query_options e r) syms) [0..<length syms] \<and>
         map current (progress_updates (snd (POST e (Inr r)))) = [1..<length syms + 1] \<and>
         map total_p (progress_updates (snd (POST e (Inr r)))) =
           replicate (length syms) (length syms) \<and>
         snd (POST e (Inr r)) =
           concat (map (turn e (query_options e r) syms) [0..<length syms]) @
           terminal e (query_options e r) syms \<and>
         progress_updates (terminal e (query_options e r) syms) = []"
proof -
  have a: "map (\<lambda>k. current (progress_at e opts syms k)) [0..<n] = [1..<n + 1]" for n opts
    by (induction n) (simp_all add: progress_at_def)
  have b: "map (\<lambda>k. total_p (progress_at e opts syms k)) [0..<n] = replicate n (length syms)"
    for n opts
    by (induction n) (simp_all add: progress_at_def replicate_append_same)
  show ?thesis
    using POST_stream[OF assms, of e]
    by (simp add: turns_observed terminal_observed a b comp_def)
qed

theorem progress_events_count_and_order_witness:
  "\<not> missing_required (demo_request [''AAPL'', ''BAD'', ''MSFT'']) \<and>
   symbols (demo_request [''AAPL'', ''BAD'', ''MSFT'']) = Some [''AAPL'', ''BAD'', ''MSFT''] \<and>
   map current (progress_updates
     (snd (POST demo_env (Inr (demo_request [''AAPL'', ''BAD'', ''MSFT'']))))) = [1, 2, 3] \<and>
   map total_p (progress_updates
     (snd (POST demo_env (Inr (demo_request [''AAPL'', ''BAD'', ''MSFT'']))))) = [3, 3, 3]"
proof -
  have h1: "\<not> missing_required (demo_request [''AAPL'', ''BAD'', ''MSFT''])"
    by (rule demo_request_valid)
  have h2: "symbols (demo_request [''AAPL'', ''BAD'', ''MSFT'']) = Some [''AAPL'', ''BAD'', ''MSFT'']"
    by (rule demo_request_symbols)
  have u: "[1..<length [''AAPL'', ''BAD'', ''MSFT''] + 1] = [1, 2, 3]"
    by (simp add: upt_rec)
  have v: "replicate (length [''AAPL'', ''BAD'', ''MSFT'']) (length [''AAPL'', ''BAD'', ''MSFT''])
             = [3, 3, 3::nat]"
    by (simp add: numeral_3_eq_3)
  note T = progress_events_count_and_order [OF h1 h2, of demo_env]
  have c: "map current (progress_updates
     (snd (POST demo_env (Inr (demo_request [''AAPL'', ''BAD'', ''MSFT'']))))) = [1, 2, 3]"
    unfolding u [symmetric] by (rule conjunct1 [OF conjunct2 [OF T]])
  have t: "map total_p (progress_updates
     (snd (POST demo_env (Inr (demo_request [''AAPL'', ''BAD'', ''MSFT'']))))) = [3, 3, 3]"
    unfolding v [symmetric] by (rule conjunct1 [OF conjunct2 [OF conjunct2 [OF T]]])
  show ?thesis
    using h1 h2 c t by blast
qed

text \<open>
  Claim C4. For a request that passes the test of line 36 and leaves \<^verbatim>\<open>allResults\<close> empty
  after the loop (each symbol failed or returned no row), the handler writes exactly one
  error event, with the message \<^verbatim>\<open>No valid data retrieved for any symbols\<close>, writes no
  complete event, and closes the stream right after the error event: the effects are the
  turns of the symbols, the error event and the closing, with no call of the CSV library.
\<close>

theorem no_rows_error_event:
  assumes "\<not> missing_required r" and "symbols r = Some syms"
    and "allResults (run_loop e (query_options e r) syms) = []"
  shows "error_messages (snd (POST e (Inr r))) = [''No valid data retrieved for any symbols''] \<and>
         complete_payloads (snd (POST e (Inr r))) = [] \<and>
         close_count (snd (POST e (Inr r))) = 1 \<and>
         snd (POST e (Inr r)) =
           concat (map (turn e (query_options e r) syms) [0..<length syms]) @
           [Write (Error_event ''No valid data retrieved for any symbols''), Close] \<and>
         (\<forall>k<length syms. fails e (query_options e r) syms k \<or>
            returned_rows e (query_options e r) syms k = [])"
proof -
  have "tagged_upto e (query_options e r) syms (length syms) = []"
    using assms(3) by (simp add: allResults_run_loop)
  then have "terminal e (query_options e r) syms =
      [Write (Error_event ''No valid data retrieved for any symbols''), Close]"
    by (rule terminal_empty)
  then show ?thesis
    using POST_stream[OF assms(1,2), of e]
    using assms(3) by (simp add: turns_observed accumulator_empty_iff)
qed

theorem no_rows_error_event_witness:
  "\<not> missing_required (demo_request [''IDLE'', ''BAD'']) \<and>
   symbols (demo_request [''IDLE'', ''BAD'']) = Some [''IDLE'', ''BAD''] \<and>
   allResults (run_loop demo_env (query_options demo_env (demo_request [''IDLE'', ''BAD'']))
      [''IDLE'', ''BAD'']) = [] \<and>
   error_messages (snd (POST demo_env (Inr (demo_request [''IDLE'', ''BAD''])))) =
     [''No valid data retrieved for any symbols''] \<and>
   complete_payloads (snd (POST demo_env (Inr (demo_request [''IDLE'', ''BAD''])))) = [] \<and>
   close_count (snd (POST demo_env (Inr (demo_request [''IDLE'', ''BAD''])))) = 1"
proof -
  have h1: "\<not> missing_required (demo_request [''IDLE'', ''BAD''])"
    by (rule demo_request_valid)
  have h2: "symbols (demo_request [''IDLE'', ''BAD'']) = Some [''IDLE'', ''BAD'']"
    by (rule demo_request_symbols)
  have h3: "allResults (run_loop demo_env (query_options demo_env (demo_request [''IDLE'', ''BAD'']))
      [''IDLE'', ''BAD'']) = []"
    by (simp add: run_loop_def loop_body_def try_symbol_def demo_env_def initial_state_def)
  show ?thesis
    using h1 h2 h3 no_rows_error_event [OF h1 h2 h3] by blast
qed

text \<open>
  Claim C9. A symbol whose quote is returned and truthy and whose historical call returns no
  row is processed (its progress event counts it) and is not recorded as failed: the list of
  failed symbols is the same after its turn as before, so its progress event has no
  \<^verbatim>\<open>error\<close> field unless an earlier symbol failed, and it adds no row. When every symbol
  of the request is like that, no progress event has an \<^verbatim>\<open>error\<close> field, and still the
  stream ends with the error event \<^verbatim>\<open>No valid data retrieved for any symbols\<close>.
\<close>

theorem empty_history_not_a_failure:
  assumes "\<not> missing_required r" and "symbols r = Some syms" and "i < length syms"
    and "quote e i (syms ! i) = Inr True"
    and "historical e i (syms ! i) (query_options e r) = Inr []"
  shows "\<not> fails e (query_options e r) syms i \<and>
         failed_upto e (query_options e r) syms (i + 1) = failed_upto e (query_options e r) syms i \<and>
         returned_rows e (query_options e r) syms i = [] \<and>
         current (progress_updates (snd (POST e (Inr r))) ! i) = i + 1 \<and>
         error_p (progress_updates (snd (POST e (Inr r))) ! i) =
           progress_error (failed_upto e (query_options e r) syms i) \<and>
         ((\<forall>j<i. \<not> fails e (query_options e r) syms j) \<longrightarrow>
            error_p (progress_updates (snd (POST e (Inr r))) ! i) = None) \<and>
         ((\<forall>k<length syms. quote e k (syms ! k) = Inr True \<and>
               historical e k (syms ! k) (query_options e r) = Inr []) \<longrightarrow>
            map error_p (progress_updates (snd (POST e (Inr r)))) = replicate (length syms) None \<and>
            error_messages (snd (POST e (Inr r))) = [''No valid data retrieved for any symbols''] \<and>
            complete_payloads (snd (POST e (Inr r))) = [])"
proof -
  let ?o = "query_options e r"
  have nf: "\<not> fails e ?o syms i"
    using assms(4,5) by (simp add: fails_def)
  have same: "failed_upto e ?o syms (i + 1) = failed_upto e ?o syms i"
    using nf by (simp add: failed_upto_Suc)
  have rows: "returned_rows e ?o syms i = []"
    using assms(4,5) by (simp add: returned_rows_def)
  have ev: "progress_updates (snd (POST e (Inr r))) ! i = progress_at e ?o syms i"
    using assms(1-3) by (rule progress_updates_nth)
  have cur: "current (progress_updates (snd (POST e (Inr r))) ! i) = i + 1"
    by (simp add: ev progress_at_def)
  have err: "error_p (progress_updates (snd (POST e (Inr r))) ! i) =
      progress_error (failed_upto e ?o syms i)"
    using same by (simp add: ev progress_at_def)
  have quiet: "error_p (progress_updates (snd (POST e (Inr r))) ! i) = None"
    if "\<forall>j<i. \<not> fails e ?o syms j"
    using that by (simp add: err failed_upto_none)
  have all: "map error_p (progress_updates (snd (POST e (Inr r)))) = replicate (length syms) None \<and>
      error_messages (snd (POST e (Inr r))) = [''No valid data retrieved for any symbols''] \<and>
      complete_payloads (snd (POST e (Inr r))) = []"
    if h: "\<forall>k<length syms. quote e k (syms ! k) = Inr True \<and>
               historical e k (syms ! k) ?o = Inr []"
  proof -
    have nofail: "\<forall>k<length syms. \<not> fails e ?o syms k"
      using h by (simp add: fails_def)
    have norows: "\<forall>k<length syms. returned_rows e ?o syms k = []"
      using h by (simp add: returned_rows_def)
    have "\<forall>k<length syms. failed_upto e ?o syms (k + 1) = []"
      using nofail by (auto intro!: failed_upto_none)
    then have "map (\<lambda>k. error_p (progress_at e ?o syms k)) [0..<length syms] =
        map (\<lambda>k. None) [0..<length syms]"
      by (simp add: progress_at_def)
    then have p: "map error_p (progress_updates (snd (POST e (Inr r)))) =
        replicate (length syms) None"
      using POST_stream[OF assms(1,2), of e]
      by (simp add: turns_observed terminal_observed comp_def map_replicate_const)
    have "tagged_upto e ?o syms (length syms) = []"
      using norows by (simp add: tagged_upto_empty_iff)
    then have "terminal e ?o syms =
        [Write (Error_event ''No valid data retrieved for any symbols''), Close]"
      by (rule terminal_empty)
    then show ?thesis
      using p POST_stream[OF assms(1,2), of e] by (simp add: turns_observed)
  qed
  show ?thesis
    using nf same rows cur err quiet all by blast
qed

theorem empty_history_not_a_failure_witness:
  "\<not> missing_required (demo_request [''IDLE'', ''IDLE'']) \<and>
   symbols (demo_request [''IDLE'', ''IDLE'']) = Some [''IDLE'', ''IDLE''] \<and>
   (1::nat) < length [''IDLE'', ''IDLE''] \<and>
   quote demo_env 1 ([''IDLE'', ''IDLE''] ! 1) = Inr True \<and>
   historical demo_env 1 ([''IDLE'', ''IDLE''] ! 1)
     (query_options demo_env (demo_request [''IDLE'', ''IDLE''])) = Inr [] \<and>
   \<not> fails demo_env (query_options demo_env (demo_request [''IDLE'', ''IDLE'']))
      [''IDLE'', ''IDLE''] 0 \<and>
   quote demo_env 0 ([''IDLE'', ''IDLE''] ! 0) = Inr True \<and>
   historical demo_env 0 ([''IDLE'', ''IDLE''] ! 0)
     (query_options demo_env (demo_request [''IDLE'', ''IDLE''])) = Inr [] \<and>
   error_p (progress_updates (snd (POST demo_env (Inr (demo_request [''IDLE'', ''IDLE''])))) ! 1)
     = None \<and>
   error_messages (snd (POST demo_env (Inr (demo_request [''IDLE'', ''IDLE''])))) =
     [''No valid data retrieved for any symbols''] \<and>
   complete_payloads (snd (POST demo_env (Inr (demo_request [''IDLE'', ''IDLE''])))) = []"
proof -
  let ?syms = "[''IDLE'', ''IDLE'']"
  let ?o = "query_options demo_env (demo_request ?syms)"
  have h1: "\<not> missing_required (demo_request ?syms)"
    by (rule demo_request_valid)
  have h2: "symbols (demo_request ?syms) = Some ?syms"
    by (rule demo_request_symbols)
  have h3: "(1::nat) < length ?syms"
    by simp
  have idle: "k < length ?syms \<Longrightarrow> ?syms ! k = ''IDLE''" for k
    by (cases k) simp_all
  have h6: "\<forall>k<length ?syms. quote demo_env k (?syms ! k) = Inr True \<and>
      historical demo_env k (?syms ! k) ?o = Inr []"
    using idle by (simp add: demo_env_def)
  have h4: "quote demo_env 1 (?syms ! 1) = Inr True"
    and h5: "historical demo_env 1 (?syms ! 1) ?o = Inr []"
    using h6 h3 by blast+
  have h7: "\<forall>j<1. \<not> fails demo_env ?o ?syms j"
    by (simp add: fails_def demo_env_def)
  have h8: "\<not> fails demo_env ?o ?syms 0"
    using h7 by simp
  have h9: "quote demo_env 0 (?syms ! 0) = Inr True"
    and h10: "historical demo_env 0 (?syms ! 0) ?o = Inr []"
    by (simp_all add: demo_env_def)
  show ?thesis
    using h1 h2 h3 h4 h5 h6 h7 h8 h9 h10 empty_history_not_a_failure [OF h1 h2 h3 h4 h5]
    by blast
qed

text \<open>
  Claim C1. For a request that passes the test of line 36 and has a symbol for which the
  Provider returns at least one row, with the CSV library as modelled above, the handler
  writes exactly one complete event and no error event; the header of its CSV is the eight
  columns \<^verbatim>\<open>symbol, date, open, high, low, close, volume, adjClose\<close> in this order, and the
  number of its data rows is the sum, over the symbols that succeeded, of the number of rows
  the Provider returned.
\<close>

theorem one_complete_event_with_csv:
  assumes "\<not> missing_required r" and "symbols r = Some syms"
    and "parse e = json2csv_parse"
    and "k < length syms" and "returned_rows e (query_options e r) syms k \<noteq> []"
  shows "map csv_header (complete_payloads (snd (POST e (Inr r)))) =
           [[''symbol'', ''date'', ''open'', ''high'', ''low'', ''close'', ''volume'', ''adjClose'']] \<and>
         map (\<lambda>t. length (csv_rows t)) (complete_payloads (snd (POST e (Inr r)))) =
           [sum_list (map (\<lambda>j. length (returned_rows e (query_options e r) syms j))
                       (filter (succeeds e (query_options e r) syms) [0..<length syms]))] \<and>
         error_messages (snd (POST e (Inr r))) = []"
proof -
  let ?o = "query_options e r"
  have ne: "tagged_upto e ?o syms (length syms) \<noteq> []"
    using assms(4,5) by (auto simp: tagged_upto_empty_iff)
  show ?thesis
    using POST_stream[OF assms(1,2), of e] terminal_json2csv[OF assms(3) ne]
    by (simp add: turns_observed length_tagged_upto sum_returned_successful fields_p_def)
qed

theorem one_complete_event_with_csv_witness:
  "\<not> missing_required (demo_request [''AAPL'', ''BAD'']) \<and>
   symbols (demo_request [''AAPL'', ''BAD'']) = Some [''AAPL'', ''BAD''] \<and>
   parse demo_env = json2csv_parse \<and>
   (0::nat) < length [''AAPL'', ''BAD''] \<and>
   returned_rows demo_env (query_options demo_env (demo_request [''AAPL'', ''BAD'']))
     [''AAPL'', ''BAD''] 0 \<noteq> [] \<and>
   map (\<lambda>t. length (csv_rows t))
     (complete_payloads (snd (POST demo_env (Inr (demo_request [''AAPL'', ''BAD'']))))) = [2] \<and>
   error_messages (snd (POST demo_env (Inr (demo_request [''AAPL'', ''BAD''])))) = []"
proof -
  let ?syms = "[''AAPL'', ''BAD'']"
  let ?o = "query_options demo_env (demo_request ?syms)"
  have h1: "\<not> missing_required (demo_request ?syms)"
    by (rule demo_request_valid)
  have h2: "symbols (demo_request ?syms) = Some ?syms"
    by (rule demo_request_symbols)
  have h3: "parse demo_env = json2csv_parse"
    by (simp add: demo_env_def)
  have h4: "(0::nat) < length ?syms"
    by simp
  have h5: "returned_rows demo_env ?o ?syms 0 \<noteq> []"
    by (simp add: returned_rows_def demo_env_def)
  have n: "sum_list (map (\<lambda>j. length (returned_rows demo_env ?o ?syms j))
             (filter (succeeds demo_env ?o ?syms) [0..<length ?syms])) = 2"
    by (simp add: upt_rec succeeds_def returned_rows_def demo_env_def)
  note T = one_complete_event_with_csv [OF h1 h2 h3 h4 h5]
  have c: "map (\<lambda>t. length (csv_rows t))
     (complete_payloads (snd (POST demo_env (Inr (demo_request ?syms))))) = [2]"
    unfolding n [symmetric] by (rule conjunct1 [OF conjunct2 [OF T]])
  show ?thesis
    using h1 h2 h3 h4 h5 c conjunct2 [OF conjunct2 [OF T]] by blast
qed

text \<open>
  Claim C7. The rows accumulated in \<^verbatim>\<open>allResults\<close> are, symbol after symbol in the order of
  the request, the rows the Provider returned for that symbol in the Provider's order, each
  tagged with that symbol. With the CSV library as modelled above, reading the columns
  \<^verbatim>\<open>symbol\<close> and \<^verbatim>\<open>date\<close> back from the CSV of a complete event gives the symbols and dates
  of these rows, in this order.
\<close>

theorem csv_keeps_tagging_and_order:
  assumes "\<not> missing_required r" and "symbols r = Some syms"
    and "parse e = json2csv_parse"
    and "t \<in> set (complete_payloads (snd (POST e (Inr r))))"
  shows "allResults (run_loop e (query_options e r) syms) =
           concat (map (\<lambda>k. map (with_symbol (syms ! k)) (returned_rows e (query_options e r) syms k))
                     [0..<length syms]) \<and>
         symbol_date_pairs t =
           Some (map (\<lambda>row. (Text (symbol row), Date_cell (date row)))
                   (allResults (run_loop e (query_options e r) syms))) \<and>
         symbol_date_pairs t =
           Some (concat (map (\<lambda>k. map (\<lambda>item. (Text (syms ! k), Date_cell (date item)))
                                    (returned_rows e (query_options e r) syms k))
                          [0..<length syms]))"
proof -
  let ?o = "query_options e r"
  let ?acc = "tagged_upto e ?o syms (length syms)"
  have a: "allResults (run_loop e ?o syms) = ?acc"
    by (rule allResults_run_loop)
  have t: "json2csv_parse fields_p ?acc = Inr t"
  proof (cases "?acc = []")
    case True
    then have "complete_payloads (snd (POST e (Inr r))) = []"
      using POST_stream[OF assms(1,2), of e] by (simp add: turns_observed terminal_empty)
    then show ?thesis using assms(4) by simp
  next
    case False
    then show ?thesis
      using POST_stream[OF assms(1,2), of e] terminal_json2csv[OF assms(3) False] assms(4)
      by (simp add: turns_observed json2csv_parse_def)
  qed
  have p: "symbol_date_pairs t = Some (map (\<lambda>row. (Text (symbol row), Date_cell (date row))) ?acc)"
    using t by (rule symbol_date_pairs_json2csv)
  have a': "?acc = concat (map (\<lambda>k. map (with_symbol (syms ! k)) (returned_rows e ?o syms k))
                     [0..<length syms])"
    by (simp add: tagged_upto_def)
  have p': "symbol_date_pairs t =
           Some (concat (map (\<lambda>k. map (\<lambda>item. (Text (syms ! k), Date_cell (date item)))
                                    (returned_rows e ?o syms k)) [0..<length syms]))"
    using p by (simp only: tagged_pairs)
  show ?thesis
    using a a' p p' by simp
qed

theorem csv_keeps_tagging_and_order_witness:
  "\<not> missing_required (demo_request [''AAPL'', ''BAD'']) \<and>
   symbols (demo_request [''AAPL'', ''BAD'']) = Some [''AAPL'', ''BAD''] \<and>
   parse demo_env = json2csv_parse \<and>
   hd (complete_payloads (snd (POST demo_env (Inr (demo_request [''AAPL'', ''BAD''])))))
     \<in> set (complete_payloads (snd (POST demo_env (Inr (demo_request [''AAPL'', ''BAD''])))))  \<and>
   symbol_date_pairs
     (hd (complete_payloads (snd (POST demo_env (Inr (demo_request [''AAPL'', ''BAD'']))))))
     = Some [(Text ''AAPL'', Date_cell ''2023-01-03''), (Text ''AAPL'', Date_cell ''2023-01-04'')]"
proof -
  let ?syms = "[''AAPL'', ''BAD'']"
  let ?o = "query_options demo_env (demo_request ?syms)"
  let ?t = "hd (complete_payloads (snd (POST demo_env (Inr (demo_request ?syms)))))"
  have h1: "\<not> missing_required (demo_request ?syms)"
    by (rule demo_request_valid)
  have h2: "symbols (demo_request ?syms) = Some ?syms"
    by (rule demo_request_symbols)
  have h3: "parse demo_env = json2csv_parse"
    by (simp add: demo_env_def)
  have h4: "?t \<in> set (complete_payloads (snd (POST demo_env (Inr (demo_request ?syms)))))"
    by (simp add: demo_complete)
  have v: "concat (map (\<lambda>k. map (\<lambda>item. (Text (?syms ! k), Date_cell (date item)))
                                    (returned_rows demo_env ?o ?syms k)) [0..<length ?syms])
     = [(Text ''AAPL'', Date_cell ''2023-01-03''), (Text ''AAPL'', Date_cell ''2023-01-04'')]"
    by (simp add: upt_rec returned_rows_def demo_env_def demo_row_def)
  note T = csv_keeps_tagging_and_order [OF h1 h2 h3 h4]
  have c: "symbol_date_pairs ?t =
      Some [(Text ''AAPL'', Date_cell ''2023-01-03''), (Text ''AAPL'', Date_cell ''2023-01-04'')]"
    unfolding v [symmetric] by (rule conjunct2 [OF conjunct2 [OF T]])
  show ?thesis
    using h1 h2 h3 h4 c by blast
qed

text \<open>
  Claim C6, as the handler has it, for every body that \<^verbatim>\<open>req.json()\<close> can yield. The body
  \<^verbatim>\<open>null\<close> is answered with status 500, since taking its fields throws. Every other body in
  which \<^verbatim>\<open>symbols\<close> has no length that is truthy, or \<^verbatim>\<open>startDate\<close> or \<^verbatim>\<open>endDate\<close> is
  falsy, is answered with status 400 and the body \<^verbatim>\<open>{"message":"Missing required fields"}\<close>,
  with no stream and nothing done for any symbol; every remaining body is answered with
  status 200 and the stream, and \<^verbatim>\<open>interval\<close> has no part in the answer. Without a truthy
  length are an absent \<^verbatim>\<open>symbols\<close>, \<^verbatim>\<open>null\<close>, the empty array, the empty string, a number, a
  boolean, and an object without a truthy member \<^verbatim>\<open>length\<close>; falsy are an absent field,
  \<^verbatim>\<open>null\<close>, \<^verbatim>\<open>false\<close>, the empty string and zero. On a body that fits the interface the
  handler does what \<open>POST\<close> says on the request it holds.
\<close>

theorem response_for_every_body:
  "POST_json e nz (Inr JNull) = (NextResponse_json ''Failed to fetch stock data'' 500, Some []) \<and>
   (v \<noteq> JNull \<and>
      (\<not> truthy_length nz (property_of v ''symbols'') \<or> \<not> truthy nz (property_of v ''startDate'') \<or>
       \<not> truthy nz (property_of v ''endDate'')) \<longrightarrow>
      POST_json e nz (Inr v) = (NextResponse_json ''Missing required fields'' 400, Some [])) \<and>
   (v \<noteq> JNull \<and> truthy_length nz (property_of v ''symbols'') \<and>
      truthy nz (property_of v ''startDate'') \<and> truthy nz (property_of v ''endDate'') \<longrightarrow>
      fst (POST_json e nz (Inr v)) = Response_stream 200 stream_headers) \<and>
   fst (POST_json e nz (Inr (JObject (members @ [(''interval'', x)])))) =
     fst (POST_json e nz (Inr (JObject members))) \<and>
   (\<not> truthy_length nz s \<longleftrightarrow>
      s = None \<or> s = Some JNull \<or> s = Some (JArray []) \<or> s = Some (JString []) \<or>
      (\<exists>b. s = Some (JBool b)) \<or> (\<exists>n. s = Some (JNumber n)) \<or>
      (\<exists>ms. s = Some (JObject ms) \<and> \<not> truthy nz (map_of (rev ms) ''length''))) \<and>
   (\<not> truthy nz d \<longleftrightarrow>
      d = None \<or> d = Some JNull \<or> d = Some (JBool False) \<or> d = Some (JString []) \<or>
      (\<exists>n. d = Some (JNumber n) \<and> \<not> nz n)) \<and>
   (typed_request v = Some r \<longrightarrow>
      POST_json e nz (Inr v) = (fst (POST e (Inr r)), Some (snd (POST e (Inr r)))))"
proof -
  have a: "POST_json e nz (Inr JNull) =
      (NextResponse_json ''Failed to fetch stock data'' 500, Some [])"
    by (simp add: POST_json_def)
  have b: "POST_json e nz (Inr v) = (NextResponse_json ''Missing required fields'' 400, Some [])"
    if "v \<noteq> JNull" "\<not> truthy_length nz (property_of v ''symbols'') \<or>
       \<not> truthy nz (property_of v ''startDate'') \<or> \<not> truthy nz (property_of v ''endDate'')"
    using that by (auto simp: POST_json_def)
  have c: "fst (POST_json e nz (Inr v)) = Response_stream 200 stream_headers"
    if "v \<noteq> JNull" "truthy_length nz (property_of v ''symbols'')"
       "truthy nz (property_of v ''startDate'')" "truthy nz (property_of v ''endDate'')"
    using that by (simp add: POST_json_def)
  have i: "fst (POST_json e nz (Inr (JObject (members @ [(''interval'', x)])))) =
      fst (POST_json e nz (Inr (JObject members)))"
    by (simp add: POST_json_def property_of_other_member)
  show ?thesis
    using a b c i not_truthy_length_iff[of nz s] not_truthy_iff[of nz d] POST_json_typed[of v r e nz]
    by blast
qed

theorem response_for_every_body_witness:
  "demo_body (JArray []) (JString ''2023-01-01'') \<noteq> JNull \<and>
   \<not> truthy_length mantissa_nonzero
       (property_of (demo_body (JArray []) (JString ''2023-01-01'')) ''symbols'') \<and>
   POST_json demo_env mantissa_nonzero (Inr (demo_body (JArray []) (JString ''2023-01-01''))) =
     (NextResponse_json ''Missing required fields'' 400, Some []) \<and>
   demo_body (JArray [JString ''AAPL'']) (JString ''2023-01-01'') \<noteq> JNull \<and>
   truthy_length mantissa_nonzero
     (property_of (demo_body (JArray [JString ''AAPL'']) (JString ''2023-01-01'')) ''symbols'') \<and>
   truthy mantissa_nonzero
     (property_of (demo_body (JArray [JString ''AAPL'']) (JString ''2023-01-01'')) ''startDate'') \<and>
   truthy mantissa_nonzero
     (property_of (demo_body (JArray [JString ''AAPL'']) (JString ''2023-01-01'')) ''endDate'') \<and>
   fst (POST_json demo_env mantissa_nonzero
          (Inr (demo_body (JArray [JString ''AAPL'']) (JString ''2023-01-01'')))) =
     Response_stream 200 stream_headers \<and>
   typed_request (demo_body (JArray [JString ''AAPL'']) (JString ''2023-01-01'')) =
     Some (demo_request [''AAPL'']) \<and>
   POST_json demo_env mantissa_nonzero
       (Inr (demo_body (JArray [JString ''AAPL'']) (JString ''2023-01-01''))) =
     (fst (POST demo_env (Inr (demo_request [''AAPL'']))),
      Some (snd (POST demo_env (Inr (demo_request [''AAPL''])))))"
proof -
  let ?bad = "demo_body (JArray []) (JString ''2023-01-01'')"
  let ?good = "demo_body (JArray [JString ''AAPL'']) (JString ''2023-01-01'')"
  have b1: "?bad \<noteq> JNull" and g1: "?good \<noteq> JNull"
    by (simp_all add: demo_body_def)
  have b2: "\<not> truthy_length mantissa_nonzero (property_of ?bad ''symbols'')"
    by (simp add: demo_body_def property_of_def truthy_length_def)
  have g2: "truthy_length mantissa_nonzero (property_of ?good ''symbols'')"
    and g3: "truthy mantissa_nonzero (property_of ?good ''startDate'')"
    and g4: "truthy mantissa_nonzero (property_of ?good ''endDate'')"
    by (simp_all add: demo_body_def property_of_def truthy_length_def truthy_def)
  have g5: "typed_request ?good = Some (demo_request [''AAPL''])"
    by (simp add: typed_request_def demo_body_def property_of_def strings_field_def
          string_field_def demo_request_def)
  note B = response_for_every_body [of demo_env mantissa_nonzero ?bad]
  note G = response_for_every_body [of demo_env mantissa_nonzero ?good _ _ _ _ "demo_request [''AAPL'']"]
  have c1: "POST_json demo_env mantissa_nonzero (Inr ?bad) =
      (NextResponse_json ''Missing required fields'' 400, Some [])"
    using B b1 b2 by blast
  have c2: "fst (POST_json demo_env mantissa_nonzero (Inr ?good)) =
      Response_stream 200 stream_headers"
    using G g1 g2 g3 g4 by blast
  have c3: "POST_json demo_env mantissa_nonzero (Inr ?good) =
      (fst (POST demo_env (Inr (demo_request [''AAPL'']))),
       Some (snd (POST demo_env (Inr (demo_request [''AAPL''])))))"
    using G g5 by blast
  show ?thesis
    using b1 b2 c1 g1 g2 g3 g4 c2 g5 c3 by blast
qed

text \<open>
  Claim C6 as stated fails in three ways: a body whose \<^verbatim>\<open>startDate\<close> is present, as the
  empty string, is answered with status 400; the body \<^verbatim>\<open>null\<close>, which has no \<^verbatim>\<open>symbols\<close>, is
  answered with status 500; and a body whose \<^verbatim>\<open>symbols\<close> is present, as the number 5, is
  answered with status 400. So is one whose \<^verbatim>\<open>symbols\<close> is an object without \<^verbatim>\<open>length\<close>, and
  one whose \<^verbatim>\<open>startDate\<close> is \<^verbatim>\<open>false\<close> or \<^verbatim>\<open>0\<close>.
\<close>

theorem body_counterexample:
  "property_of (demo_body (JArray [JString ''AAPL'']) (JString '''')) ''startDate'' =
     Some (JString '''') \<and>
   POST_json demo_env mantissa_nonzero
       (Inr (demo_body (JArray [JString ''AAPL'']) (JString ''''))) =
     (NextResponse_json ''Missing required fields'' 400, Some []) \<and>
   property_of JNull ''symbols'' = None \<and>
   POST_json demo_env mantissa_nonzero (Inr JNull) =
     (NextResponse_json ''Failed to fetch stock data'' 500, Some []) \<and>
   property_of (demo_body (JNumber ''5'') (JString ''2023-01-01'')) ''symbols'' =
     Some (JNumber ''5'') \<and>
   POST_json demo_env mantissa_nonzero
       (Inr (demo_body (JNumber ''5'') (JString ''2023-01-01''))) =
     (NextResponse_json ''Missing required fields'' 400, Some []) \<and>
   POST_json demo_env mantissa_nonzero
       (Inr (demo_body (JObject [(''size'', JNumber ''1'')]) (JString ''2023-01-01''))) =
     (NextResponse_json ''Missing required fields'' 400, Some []) \<and>
   POST_json demo_env mantissa_nonzero
       (Inr (demo_body (JArray [JString ''AAPL'']) (JBool False))) =
     (NextResponse_json ''Missing required fields'' 400, Some []) \<and>
   POST_json demo_env mantissa_nonzero
       (Inr (demo_body (JArray [JString ''AAPL'']) (JNumber ''0''))) =
     (NextResponse_json ''Missing required fields'' 400, Some [])"
  by code_simp




text \<open>
  Claim C10, as the handler has it. The handler does not look for repetitions: each position
  of the request has its own turn, so there are as many delays and progress events as
  positions, as many quote calls for a symbol \<open>S\<close> as \<open>S\<close> has occurrences, and a historical
  call for \<open>S\<close> for each occurrence whose quote was returned and truthy. If every occurrence
  of \<open>S\<close> fails, then \<open>S\<close> is in \<^verbatim>\<open>failedSymbols\<close> as often as it occurs in the request;
  and if no symbol of the request holds the separator \<^verbatim>\<open>, \<close>, then \<open>S\<close> is an entry of the
  \<^verbatim>\<open>error\<close> field of each progress event as often as \<open>S\<close> occurs among the symbols
  processed so far, and from the last occurrence on as often as in the request.
\<close>

theorem duplicates_processed_independently:
  assumes "\<not> missing_required r" and "symbols r = Some syms"
  shows "length (filter (\<lambda>x. x = Delay 1000) (snd (POST e (Inr r)))) = length syms \<and>
         count_list (snd (POST e (Inr r))) (Quote_call S) = count_list syms S \<and>
         count_list (snd (POST e (Inr r))) (Historical_call S (query_options e r)) =
           length (filter (\<lambda>j. syms ! j = S \<and> quote e j S = Inr True) [0..<length syms]) \<and>
         length (progress_updates (snd (POST e (Inr r)))) = length syms \<and>
         ((\<forall>j<length syms. syms ! j = S \<longrightarrow> fails e (query_options e r) syms j) \<longrightarrow>
            count_list (failedSymbols (run_loop e (query_options e r) syms)) S = count_list syms S \<and>
            ((\<forall>s\<in>set syms. \<not> contains_str '', '' s) \<longrightarrow>
               (\<forall>k<length syms.
                  count_list (error_entries
                      (error_p (progress_updates (snd (POST e (Inr r))) ! k))) S =
                    count_list (take (k + 1) syms) S \<and>
                  ((\<forall>j<length syms. syms ! j = S \<longrightarrow> j \<le> k) \<longrightarrow>
                     count_list (error_entries
                         (error_p (progress_updates (snd (POST e (Inr r))) ! k))) S =
                       count_list syms S))))"
proof -
  let ?o = "query_options e r"
  let ?effs = "snd (POST e (Inr r))"
  let ?n = "length syms"
  have d: "length (filter (\<lambda>x. x = Delay 1000) ?effs) = ?n"
    using effects_count[OF assms turn_counts(1) terminal_no_calls(1), of e] by simp
  have "length (filter (\<lambda>x. x = Quote_call S) ?effs) = length (filter (\<lambda>j. syms ! j = S) [0..<?n])"
    by (rule effects_count[OF assms turn_counts(2) terminal_no_calls(2)])
  then have q: "count_list ?effs (Quote_call S) = count_list syms S"
    using filter_nth_upt[of "\<lambda>s. s = S" syms]
    by (simp add: count_list_filter)
  have "length (filter (\<lambda>x. x = Historical_call S ?o) ?effs) =
      length (filter (\<lambda>j. syms ! j = S \<and> quote e j S = Inr True) [0..<?n])"
    by (rule effects_count[OF assms turn_counts(3) terminal_no_calls(3)])
  then have h: "count_list ?effs (Historical_call S ?o) =
      length (filter (\<lambda>j. syms ! j = S \<and> quote e j S = Inr True) [0..<?n])"
    by (simp add: count_list_filter)
  have p: "length (progress_updates ?effs) = ?n"
    using assms by (rule length_progress_updates)
  have f: "count_list (failed_upto e ?o syms k) S = count_list (take k syms) S"
    if all: "\<forall>j<?n. syms ! j = S \<longrightarrow> fails e ?o syms j" and "k \<le> ?n" for k
  proof -
    have "filter (\<lambda>j. syms ! j = S \<and> fails e ?o syms j) [0..<k] = filter (\<lambda>j. syms ! j = S) [0..<k]"
      using all that(2) by (auto intro!: filter_cong)
    then show ?thesis
      using that(2) by (simp add: count_failed_upto count_take)
  qed
  have late: "count_list (take (k + 1) syms) S = count_list syms S"
    if "\<forall>j<?n. syms ! j = S \<longrightarrow> j \<le> k" "k < ?n" for k
  proof -
    have "S \<notin> set (drop (k + 1) syms)"
    proof
      assume "S \<in> set (drop (k + 1) syms)"
      then obtain i where i: "i < length (drop (k + 1) syms)" "drop (k + 1) syms ! i = S"
        by (auto simp: in_set_conv_nth)
      then have "k + 1 + i < ?n" "syms ! (k + 1 + i) = S"
        by simp_all
      then have "k + 1 + i \<le> k"
        using that(1) by blast
      then show False by simp
    qed
    then have z: "count_list (drop (k + 1) syms) S = 0"
      by (simp add: count_list_0_iff)
    have "count_list syms S = count_list (take (k + 1) syms @ drop (k + 1) syms) S"
      by simp
    also have "\<dots> = count_list (take (k + 1) syms) S + count_list (drop (k + 1) syms) S"
      by (simp only: count_list_append)
    finally show ?thesis
      using z by simp
  qed
  have g: "count_list (failedSymbols (run_loop e ?o syms)) S = count_list syms S \<and>
      ((\<forall>s\<in>set syms. \<not> contains_str '', '' s) \<longrightarrow>
         (\<forall>k<?n. count_list (error_entries (error_p (progress_updates ?effs ! k))) S =
              count_list (take (k + 1) syms) S \<and>
            ((\<forall>j<?n. syms ! j = S \<longrightarrow> j \<le> k) \<longrightarrow>
               count_list (error_entries (error_p (progress_updates ?effs ! k))) S =
                 count_list syms S)))"
    if all: "\<forall>j<?n. syms ! j = S \<longrightarrow> fails e ?o syms j"
  proof -
    have a: "count_list (failedSymbols (run_loop e ?o syms)) S = count_list syms S"
      using f[OF all, of ?n] by (simp add: failedSymbols_run_loop)
    have b: "count_list (error_entries (error_p (progress_updates ?effs ! k))) S =
        count_list (take (k + 1) syms) S"
      if "\<forall>s\<in>set syms. \<not> contains_str '', '' s" "k < ?n" for k
      using f[OF all, of "k + 1"] error_entries_event[OF assms that, of e] that(2) by simp
    show ?thesis
      using a b late by simp
  qed
  show ?thesis
    using d q h p g by blast
qed

theorem duplicates_processed_independently_witness:
  "\<not> missing_required (demo_request [''BAD'', ''AAPL'', ''BAD'']) \<and>
   symbols (demo_request [''BAD'', ''AAPL'', ''BAD'']) = Some [''BAD'', ''AAPL'', ''BAD''] \<and>
   fails demo_env (query_options demo_env (demo_request [''BAD'', ''AAPL'', ''BAD'']))
     [''BAD'', ''AAPL'', ''BAD''] 0 \<and>
   fails demo_env (query_options demo_env (demo_request [''BAD'', ''AAPL'', ''BAD'']))
     [''BAD'', ''AAPL'', ''BAD''] 2 \<and>
   \<not> contains_str '', '' ''BAD'' \<and> \<not> contains_str '', '' ''AAPL'' \<and>
   count_list (snd (POST demo_env (Inr (demo_request [''BAD'', ''AAPL'', ''BAD''])))) (Quote_call ''BAD'') = 2 \<and>
   count_list (failedSymbols (run_loop demo_env
       (query_options demo_env (demo_request [''BAD'', ''AAPL'', ''BAD'']))
       [''BAD'', ''AAPL'', ''BAD''])) ''BAD'' = 2 \<and>
   count_list (error_entries (error_p (progress_updates
       (snd (POST demo_env (Inr (demo_request [''BAD'', ''AAPL'', ''BAD''])))) ! 2))) ''BAD'' = 2"
proof -
  let ?syms = "[''BAD'', ''AAPL'', ''BAD'']"
  let ?o = "query_options demo_env (demo_request ?syms)"
  let ?effs = "snd (POST demo_env (Inr (demo_request ?syms)))"
  have h1: "\<not> missing_required (demo_request ?syms)"
    by (rule demo_request_valid)
  have h2: "symbols (demo_request ?syms) = Some ?syms"
    by (rule demo_request_symbols)
  have h3: "fails demo_env ?o ?syms 0" and h4: "fails demo_env ?o ?syms 2"
    by (simp_all add: fails_def demo_env_def)
  have s1: "\<not> contains_str '', '' ''BAD''" and s2: "\<not> contains_str '', '' ''AAPL''"
    by simp_all
  have nosep: "\<forall>s\<in>set ?syms. \<not> contains_str '', '' s"
    using s1 s2 by simp
  have all: "\<forall>j<length ?syms. ?syms ! j = ''BAD'' \<longrightarrow> fails demo_env ?o ?syms j"
    by (auto simp: less_Suc_eq fails_def demo_env_def)
  have last: "\<forall>j<length ?syms. ?syms ! j = ''BAD'' \<longrightarrow> j \<le> 2"
    by simp
  have c: "count_list ?syms ''BAD'' = 2"
    by simp
  note T = duplicates_processed_independently [OF h1 h2, of demo_env "''BAD''"]
  have q: "count_list ?effs (Quote_call ''BAD'') = 2"
    using T c by simp
  have r: "count_list (failedSymbols (run_loop demo_env ?o ?syms)) ''BAD'' = 2"
    using T all c by simp
  have k: "(2::nat) < length ?syms"
    by simp
  have "count_list (error_entries (error_p (progress_updates ?effs ! 2))) ''BAD'' =
      count_list ?syms ''BAD''"
    using T all nosep last k by blast
  then have n: "count_list (error_entries (error_p (progress_updates ?effs ! 2))) ''BAD'' = 2"
    using c by simp
  show ?thesis
    using h1 h2 h3 h4 s1 s2 q r n by blast
qed

text \<open>
  Claim C10 as stated fails when another symbol holds the separator: in the request
  \<^verbatim>\<open>["S", "X, S"]\<close>, where both symbols fail, \<^verbatim>\<open>S\<close> occurs once and is recorded once, and the
  last progress event reads \<^verbatim>\<open>Failed to fetch: S, X, S\<close>, in which \<^verbatim>\<open>S\<close> is an entry twice.
\<close>

theorem entries_of_another_symbol_counterexample:
  "fails demo_env (query_options demo_env (demo_request [''S'', ''X, S''])) [''S'', ''X, S''] 0 \<and>
   [''S'', ''X, S''] ! 1 \<noteq> ''S'' \<and>
   count_list [''S'', ''X, S''] ''S'' = 1 \<and>
   count_list (failedSymbols (run_loop demo_env
       (query_options demo_env (demo_request [''S'', ''X, S''])) [''S'', ''X, S''])) ''S'' = 1 \<and>
   error_p (progress_updates (snd (POST demo_env (Inr (demo_request [''S'', ''X, S''])))) ! 1) =
     Some ''Failed to fetch: S, X, S'' \<and>
   count_list (error_entries (error_p (progress_updates
       (snd (POST demo_env (Inr (demo_request [''S'', ''X, S''])))) ! 1))) ''S'' = 2"
  by code_simp

section \<open>The claim about the form controller\<close>

text \<open>
  On a data line that is JSON, the controller does what the comments of the code say: a
  progress block sets the progress shown, and a complete block saves the parsed value under
  the fixed name.
\<close>

lemma progress_block_shown:
  "process_block progress_block initial_client =
     Some (Inr (initial_client\<lparr>progress :=
       \<lparr>current_c = Some (JNumber ''1''), total_c = Some (JNumber ''2''),
        error_c = Some (JString ''Failed to fetch: BAD'')\<rparr>\<rparr>))"
  by code_simp

lemma json_string_block_saved:
  "process_block json_string_block initial_client =
     Some (Inr (initial_client\<lparr>saved :=
       [\<lparr>download = ''stock_historical_data.csv'', blob_part = JString ''symbol,date''\<rparr>]\<rparr>))"
  by code_simp

text \<open>
  Claim C2, where the code departs from it. Line 75 hands the data line of every block to
  \<^verbatim>\<open>JSON.parse\<close>, before the \<^verbatim>\<open>switch\<close> on the event name. The handler writes the CSV of a
  complete event as it is, and the first line of a CSV with the eight columns is not JSON,
  whether json2csv quotes the column names or not: on such a block \<^verbatim>\<open>JSON.parse\<close> throws, the
  loop over the blocks ends there, and no file is saved, from whatever state.
\<close>

theorem complete_block_with_csv_throws:
  "process_block csv_block st = Some (Inl Syntax_error) \<and>
   process_block csv_block_unquoted st = Some (Inl Syntax_error) \<and>
   process_blocks [progress_block, csv_block] initial_client = Some (Inl Syntax_error)"
  by code_simp

end
